theory Spec2Isabelle
  imports Main "HOL-Library.Word"
begin

section \<open>The catalog store\<close>

text \<open>
  The store of package \<open>db\<close> is an SQLite database with the tables \<open>games\<close> and
  \<open>rom_files\<close> created by \<open>migrate\<close>. A table is modelled as the list of its rows in
  insertion order; a nullable \<open>TEXT\<close> column is a \<open>string option\<close> (\<open>None\<close> is SQL
  \<open>NULL\<close>). The columns of \<open>rom_files\<close> that \<open>UpsertRomFile\<close> (the only statement
  inserting into that table) always binds to Go strings are plain strings. The timestamp
  columns \<open>created_at\<close> and \<open>updated_at\<close> and the table \<open>cover_arts\<close> are left out:
  no operation below reads them. Store failures (a failing \<open>Begin\<close>, \<open>Exec\<close> or
  \<open>Commit\<close>) are not modelled: every statement is executed on a working store.
\<close>

record games_row =
  g_id :: int
  title_en :: "string option"
  title_ja :: "string option"
  description_ja :: "string option"
  g_platform :: string
  developer :: "string option"
  publisher :: "string option"
  release_date :: "string option"
  genre :: "string option"
  players :: "string option"
  rating :: "string option"

record rom_files_row =
  rf_id :: int
  path :: string
  filename :: string
  rf_size :: "64 word"
  hash_crc32 :: string
  hash_md5 :: string
  hash_sha1 :: string
  rf_platform :: string
  game_id :: "int option"

record DB =
  games :: "games_row list"
  rom_files :: "rom_files_row list"

text \<open>
  Both tables declare \<open>id INTEGER PRIMARY KEY\<close>: an insert that gives no id takes the
  largest id of the table plus one, and 1 in an empty table.
\<close>

fun next_rowid :: "int list \<Rightarrow> int" where
  "next_rowid [] = 1"
| "next_rowid (x # xs) = fold max xs x + 1"

text \<open>
  The constraints of the schema: the primary keys are unique, and so is
  \<open>rom_files.path\<close> (\<open>path TEXT NOT NULL UNIQUE\<close>).
\<close>

definition wf_db :: "DB \<Rightarrow> bool" where
  "wf_db d = (distinct (map g_id (games d)) \<and> distinct (map rf_id (rom_files d))
     \<and> distinct (map path (rom_files d)))"

subsection \<open>Scan upsert\<close>

text \<open>
  \<open>UpsertRomFile\<close>: \<open>INSERT INTO rom_files (path, filename, size, hash_crc32, hash_md5,
  hash_sha1, platform, updated_at) VALUES (...) ON CONFLICT(path) DO UPDATE SET
  filename, size, hash_crc32, hash_md5, hash_sha1, platform, updated_at\<close>.
  The inserted row has no \<open>game_id\<close> (\<open>NULL\<close>); the update names neither \<open>id\<close> nor
  \<open>game_id\<close>.
\<close>

definition on_conflict_update ::
  "string \<Rightarrow> string \<Rightarrow> 64 word \<Rightarrow> string \<Rightarrow> string \<Rightarrow> string \<Rightarrow> string
     \<Rightarrow> rom_files_row \<Rightarrow> rom_files_row" where
  \<comment> \<open>the \<open>DO UPDATE SET\<close> clause, applied to the row whose \<open>path\<close> conflicts\<close>
  "on_conflict_update p fname sz crc32 md5 sha1 plat r =
     (if path r = p
      then r\<lparr>filename := fname, rf_size := sz, hash_crc32 := crc32,
             hash_md5 := md5, hash_sha1 := sha1, rf_platform := plat\<rparr>
      else r)"

definition UpsertRomFile ::
  "string \<Rightarrow> string \<Rightarrow> 64 word \<Rightarrow> string \<Rightarrow> string \<Rightarrow> string \<Rightarrow> string \<Rightarrow> DB \<Rightarrow> DB" where
  "UpsertRomFile p fname sz crc32 md5 sha1 plat d =
     (if list_ex (\<lambda>r. path r = p) (rom_files d)
      then d\<lparr>rom_files :=
             map (on_conflict_update p fname sz crc32 md5 sha1 plat) (rom_files d)\<rparr>
      else d\<lparr>rom_files := rom_files d @
             [\<lparr>rf_id = next_rowid (map rf_id (rom_files d)), path = p, filename = fname,
               rf_size = sz, hash_crc32 = crc32, hash_md5 = md5, hash_sha1 = sha1,
               rf_platform = plat, game_id = None\<rparr>]\<rparr>)"

subsection \<open>Hash-based match\<close>

text \<open>\<open>DATRom\<close>: one ROM entry of a parsed checksum database.\<close>

record DATRom =
  GameTitle :: string
  Platform :: string
  CRC32 :: string
  MD5 :: string
  SHA1 :: string
  Size :: "64 word"

text \<open>
  \<open>MatchROMs\<close> picks one of three queries, \<open>SELECT id, game_id FROM rom_files WHERE
  hash_sha1 = ?\<close> (or \<open>hash_md5\<close>, or \<open>hash_crc32\<close>), by the first hash of the entry that
  is not the empty string; with none, the entry is passed over (\<open>continue\<close>).
\<close>

datatype hash_query = by_sha1 | by_md5 | by_crc32

fun hash_column :: "hash_query \<Rightarrow> rom_files_row \<Rightarrow> string" where
  "hash_column by_sha1 r = hash_sha1 r"
| "hash_column by_md5 r = hash_md5 r"
| "hash_column by_crc32 r = hash_crc32 r"

definition select_query :: "DATRom \<Rightarrow> (hash_query \<times> string) option" where
  "select_query dr =
     (if SHA1 dr \<noteq> [] then Some (by_sha1, SHA1 dr)
      else if MD5 dr \<noteq> [] then Some (by_md5, MD5 dr)
      else if CRC32 dr \<noteq> [] then Some (by_crc32, CRC32 dr)
      else None)"

record romMatch =
  rm_id :: int
  rm_gameID :: "int option"

definition query_matches :: "hash_query \<Rightarrow> string \<Rightarrow> DB \<Rightarrow> romMatch list" where
  "query_matches q hashVal d =
     map (\<lambda>r. \<lparr>rm_id = rf_id r, rm_gameID = game_id r\<rparr>)
       (filter (\<lambda>r. hash_column q r = hashVal) (rom_files d))"

definition update_title_en_if_empty :: "string \<Rightarrow> int \<Rightarrow> DB \<Rightarrow> DB" where
  \<comment> \<open>\<open>UPDATE games SET title_en = ? WHERE id = ? AND (title_en IS NULL OR title_en = '')\<close>\<close>
  "update_title_en_if_empty t g d =
     d\<lparr>games := map (\<lambda>row. if g_id row = g \<and> (title_en row = None \<or> title_en row = Some [])
                            then row\<lparr>title_en := Some t\<rparr> else row) (games d)\<rparr>"

definition select_game_by_title_en :: "string \<Rightarrow> string \<Rightarrow> DB \<Rightarrow> int option" where
  \<comment> \<open>\<open>SELECT id FROM games WHERE title_en = ? AND platform = ?\<close>, read with \<open>QueryRow\<close>:
      the first row found, an error when there is none\<close>
  "select_game_by_title_en t p d =
     map_option g_id (find (\<lambda>row. title_en row = Some t \<and> g_platform row = p) (games d))"

definition insert_game_title_en :: "string \<Rightarrow> string \<Rightarrow> DB \<Rightarrow> int \<times> DB" where
  \<comment> \<open>\<open>INSERT INTO games (title_en, platform) VALUES (?, ?)\<close> and \<open>LastInsertId\<close>\<close>
  "insert_game_title_en t p d =
     (let gameID = next_rowid (map g_id (games d))
      in (gameID,
          d\<lparr>games := games d @
            [\<lparr>g_id = gameID, title_en = Some t, title_ja = None, description_ja = None,
              g_platform = p, developer = None, publisher = None, release_date = None,
              genre = None, players = None, rating = None\<rparr>]\<rparr>))"

definition set_game_id :: "int \<Rightarrow> int \<Rightarrow> DB \<Rightarrow> DB" where
  \<comment> \<open>\<open>UPDATE rom_files SET game_id = ?, updated_at = CURRENT_TIMESTAMP WHERE id = ?\<close>\<close>
  "set_game_id gameID rid d =
     d\<lparr>rom_files := map (\<lambda>r. if rf_id r = rid then r\<lparr>game_id := Some gameID\<rparr> else r)
                        (rom_files d)\<rparr>"

text \<open>
  The body of \<open>for _, rm := range matches\<close>. The state is the store and the counter
  \<open>matched\<close>. The link \<open>rm_gameID\<close> is the one read by the query, before the loop.
\<close>

fun match_rom :: "DATRom \<Rightarrow> romMatch \<Rightarrow> DB \<times> int \<Rightarrow> DB \<times> int" where
  "match_rom dr rm (d, matched) =
     (case rm_gameID rm of
        Some g \<Rightarrow> (update_title_en_if_empty (GameTitle dr) g d, matched + 1)
      | None \<Rightarrow>
          (case select_game_by_title_en (GameTitle dr) (Platform dr) d of
             Some gameID \<Rightarrow> (set_game_id gameID (rm_id rm) d, matched + 1)
           | None \<Rightarrow>
               (case insert_game_title_en (GameTitle dr) (Platform dr) d of
                  (gameID, d') \<Rightarrow> (set_game_id gameID (rm_id rm) d', matched + 1))))"

fun match_roms :: "DATRom \<Rightarrow> romMatch list \<Rightarrow> DB \<times> int \<Rightarrow> DB \<times> int" where
  "match_roms dr [] st = st"
| "match_roms dr (rm # matches) st = match_roms dr matches (match_rom dr rm st)"

text \<open>The body of \<open>for _, dr := range datRoms\<close>.\<close>

definition match_dat_rom :: "DATRom \<Rightarrow> DB \<times> int \<Rightarrow> DB \<times> int" where
  "match_dat_rom dr st =
     (case select_query dr of
        None \<Rightarrow> st
      | Some (q, hashVal) \<Rightarrow>
          (let matches = query_matches q hashVal (fst st)
           in if matches = [] then st else match_roms dr matches st))"

fun match_dat_roms :: "DATRom list \<Rightarrow> DB \<times> int \<Rightarrow> DB \<times> int" where
  "match_dat_roms [] st = st"
| "match_dat_roms (dr # datRoms) st = match_dat_roms datRoms (match_dat_rom dr st)"

definition MatchROMs :: "DATRom list \<Rightarrow> DB \<Rightarrow> int \<times> DB" where
  "MatchROMs datRoms d = (case match_dat_roms datRoms (d, 0) of (d', matched) \<Rightarrow> (matched, d'))"

subsection \<open>Metadata-list match\<close>

record GameListEntry =
  Filename :: string
  Name :: string
  Desc :: string
  ReleaseDate :: string
  Developer :: string
  Publisher :: string
  Genre :: string
  Players :: string
  Rating :: string

text \<open>
  Strings are sequences of bytes. \<open>ToLower\<close> is Go's \<open>strings.ToLower\<close> on ASCII: the
  letters \<open>A\<close> to \<open>Z\<close> are mapped to \<open>a\<close> to \<open>z\<close>, every other byte is kept. Go's
  function also lowers the letters outside ASCII (for instance \<open>U+0130\<close> to \<open>i\<close> and
  \<open>U+212A\<close> to \<open>k\<close>); strings with such letters are outside this model, and the
  properties that go through \<open>ToLower\<close> are about ASCII text.
\<close>

definition lower_char :: "char \<Rightarrow> char" where
  "lower_char c =
     (case map_of (zip ''ABCDEFGHIJKLMNOPQRSTUVWXYZ'' ''abcdefghijklmnopqrstuvwxyz'') c of
        Some l \<Rightarrow> l
      | None \<Rightarrow> c)"

definition ToLower :: "string \<Rightarrow> string" where
  "ToLower s = map lower_char s"

text \<open>
  SQLite's \<open>LIKE\<close> in its default configuration, as the queries use it (no \<open>ESCAPE\<close>, no
  \<open>PRAGMA case_sensitive_like\<close>). Pattern and text are read character by character
  the way SQLite reads UTF-8 (\<open>sqlite3Utf8Read\<close>), up to the first NUL byte: a byte below
  \<open>0xc0\<close> is a character by itself; a byte from \<open>0xc0\<close> starts a character that takes in
  every following byte of the form \<open>10xxxxxx\<close>, six bits each in 32-bit arithmetic, and
  whose value is replaced by \<open>0xFFFD\<close> when it is below \<open>0x80\<close>, a surrogate, \<open>0xFFFE\<close>
  or \<open>0xFFFF\<close>. \<open>utf8_lead\<close> is the table \<open>sqlite3Utf8Trans1\<close>.
\<close>

definition utf8_lead :: "nat \<Rightarrow> nat" where
  "utf8_lead b =
     (if b < 0xe0 then b - 0xc0
      else if b < 0xf0 then b - 0xe0
      else if b < 0xf8 then b - 0xf0
      else if b < 0xfc then b - 0xf8
      else if b < 0xfe then b - 0xfc
      else 0)"

definition utf8_fix :: "nat \<Rightarrow> nat" where
  "utf8_fix c =
     (if c < 0x80 \<or> (0xD800 \<le> c \<and> c \<le> 0xDFFF) \<or> c = 0xFFFE \<or> c = 0xFFFF
      then 0xFFFD else c)"

fun utf8_chars :: "string \<Rightarrow> nat list"
  and utf8_cont :: "nat \<Rightarrow> string \<Rightarrow> nat list" where
  "utf8_chars [] = []"
| "utf8_chars (b # bs) =
     (if of_char b = (0::nat) then []
      else if of_char b < (0xc0::nat) then of_char b # utf8_chars bs
      else utf8_cont (utf8_lead (of_char b)) bs)"
| "utf8_cont c [] = [utf8_fix c]"
| "utf8_cont c (b # bs) =
     (if (0x80::nat) \<le> of_char b \<and> of_char b < (0xc0::nat)
      then utf8_cont ((c * 64 + (of_char b - 0x80)) mod 2 ^ 32) bs
      else utf8_fix c # utf8_chars (b # bs))"

text \<open>
  In the pattern the character \<open>%\<close> (\<open>0x25\<close>) matches any sequence of zero or more
  characters and \<open>_\<close> (\<open>0x5f\<close>) matches any one character; any other character matches
  an equal one, and an ASCII letter also the same letter in the other case
  (\<open>like_eq\<close>). The first argument of \<open>sql_like\<close> is the pattern.
\<close>

fun tails :: "'a list \<Rightarrow> 'a list list" where
  "tails [] = [[]]"
| "tails (x # xs) = (x # xs) # tails xs"

definition like_lower :: "nat \<Rightarrow> nat" where
  "like_lower c = (if 0x41 \<le> c \<and> c \<le> 0x5a then c + 0x20 else c)"

definition like_eq :: "nat \<Rightarrow> nat \<Rightarrow> bool" where
  "like_eq c c2 = (c = c2 \<or> (c < 0x80 \<and> c2 < 0x80 \<and> like_lower c = like_lower c2))"

fun like_match :: "nat list \<Rightarrow> nat list \<Rightarrow> bool" where
  "like_match [] s = (s = [])"
| "like_match (c # p) s =
     (if c = 0x25 then list_ex (like_match p) (tails s)
      else (case s of
              [] \<Rightarrow> False
            | c2 # s' \<Rightarrow> (like_eq c c2 \<or> c = 0x5f) \<and> like_match p s'))"

definition sql_like :: "string \<Rightarrow> string \<Rightarrow> bool" where
  "sql_like pat s = like_match (utf8_chars pat) (utf8_chars s)"

text \<open>
  SQLite refuses a \<open>LIKE\<close> pattern of more than 50000 bytes
  (\<open>SQLITE_MAX_LIKE_PATTERN_LENGTH\<close>): the statement then fails while its rows are read.
  Like the other failures of a statement this is not modelled, and the properties of
  the query below are stated for patterns within the limit.
\<close>

definition SQLITE_MAX_LIKE_PATTERN_LENGTH :: nat where
  "SQLITE_MAX_LIKE_PATTERN_LENGTH = 50000"

definition select_rom_ids :: "string \<Rightarrow> string \<Rightarrow> DB \<Rightarrow> int list" where
  \<comment> \<open>\<open>SELECT id FROM rom_files WHERE platform = ? AND (filename = ? OR filename LIKE ? OR
      filename LIKE ?)\<close> with the arguments \<open>platform, e.Filename, "%/"+e.Filename,
      e.Filename+"/%"\<close>\<close>
  "select_rom_ids plat fname d =
     map rf_id
       (filter (\<lambda>r. rf_platform r = plat \<and>
                     (filename r = fname \<or> sql_like (''%/'' @ fname) (filename r)
                        \<or> sql_like (fname @ ''/%'') (filename r)))
          (rom_files d))"

definition select_game_by_title_ja :: "string \<Rightarrow> string \<Rightarrow> DB \<Rightarrow> int option" where
  \<comment> \<open>\<open>SELECT id FROM games WHERE title_ja = ? AND platform = ?\<close>, read with \<open>QueryRow\<close>\<close>
  "select_game_by_title_ja t p d =
     map_option g_id (find (\<lambda>row. title_ja row = Some t \<and> g_platform row = p) (games d))"

definition insert_game_from_entry :: "GameListEntry \<Rightarrow> string \<Rightarrow> DB \<Rightarrow> int \<times> DB" where
  \<comment> \<open>\<open>INSERT INTO games (title_ja, platform, description_ja, developer, publisher,
      release_date, genre, players, rating) VALUES (...)\<close> and \<open>LastInsertId\<close>\<close>
  "insert_game_from_entry e plat d =
     (let gameID = next_rowid (map g_id (games d))
      in (gameID,
          d\<lparr>games := games d @
            [\<lparr>g_id = gameID, title_en = None, title_ja = Some (Name e),
              description_ja = Some (Desc e), g_platform = plat,
              developer = Some (Developer e), publisher = Some (Publisher e),
              release_date = Some (ReleaseDate e), genre = Some (Genre e),
              players = Some (Players e), rating = Some (Rating e)\<rparr>]\<rparr>))"

text \<open>The SQL functions \<open>NULLIF\<close> and \<open>COALESCE\<close> (of two arguments) on text.\<close>

definition NULLIF :: "string \<Rightarrow> string \<Rightarrow> string option" where
  "NULLIF x y = (if x = y then None else Some x)"

fun COALESCE :: "string option \<Rightarrow> string option \<Rightarrow> string option" where
  "COALESCE (Some x) y = Some x"
| "COALESCE None y = y"

definition update_game_from_entry :: "GameListEntry \<Rightarrow> int \<Rightarrow> DB \<Rightarrow> DB" where
  \<comment> \<open>\<open>UPDATE games SET description_ja=COALESCE(NULLIF(?, ''), description_ja),
      developer=COALESCE(NULLIF(?, ''), developer), ... , rating=COALESCE(NULLIF(?, ''),
      rating), updated_at=CURRENT_TIMESTAMP WHERE id=?\<close>\<close>
  "update_game_from_entry e gameID d =
     d\<lparr>games := map (\<lambda>row. if g_id row = gameID
          then row\<lparr>description_ja := COALESCE (NULLIF (Desc e) []) (description_ja row),
                   developer := COALESCE (NULLIF (Developer e) []) (developer row),
                   publisher := COALESCE (NULLIF (Publisher e) []) (publisher row),
                   release_date := COALESCE (NULLIF (ReleaseDate e) []) (release_date row),
                   genre := COALESCE (NULLIF (Genre e) []) (genre row),
                   players := COALESCE (NULLIF (Players e) []) (players row),
                   rating := COALESCE (NULLIF (Rating e) []) (rating row)\<rparr>
          else row) (games d)\<rparr>"

text \<open>
  The state of \<open>MatchByGameList\<close> is the store and the counters \<open>created\<close> and
  \<open>matched\<close>. \<open>link_roms\<close> is the loop \<open>for _, rid := range romIDs\<close>.
\<close>

fun link_roms :: "int \<Rightarrow> int list \<Rightarrow> DB \<times> int \<times> int \<Rightarrow> DB \<times> int \<times> int" where
  "link_roms gameID [] st = st"
| "link_roms gameID (rid # romIDs) (d, created, matched) =
     link_roms gameID romIDs (set_game_id gameID rid d, created, matched + 1)"

fun match_entry :: "string \<Rightarrow> GameListEntry \<Rightarrow> DB \<times> int \<times> int \<Rightarrow> DB \<times> int \<times> int" where
  "match_entry plat e (d, created, matched) =
     (let romIDs = select_rom_ids plat (Filename e) d
      in if romIDs = [] then (d, created, matched)
         else (case select_game_by_title_ja (Name e) plat d of
                 None \<Rightarrow>
                   (case insert_game_from_entry e plat d of
                      (gameID, d') \<Rightarrow> link_roms gameID romIDs (d', created + 1, matched))
               | Some gameID \<Rightarrow>
                   link_roms gameID romIDs
                     (update_game_from_entry e gameID d, created, matched)))"

fun match_entries :: "string \<Rightarrow> GameListEntry list \<Rightarrow> DB \<times> int \<times> int \<Rightarrow> DB \<times> int \<times> int" where
  "match_entries plat [] st = st"
| "match_entries plat (e # entries) st = match_entries plat entries (match_entry plat e st)"

definition MatchByGameList :: "GameListEntry list \<Rightarrow> string \<Rightarrow> DB \<Rightarrow> int \<times> int \<times> DB" where
  "MatchByGameList entries plat d =
     (case match_entries plat entries (d, 0, 0) of
        (d', created, matched) \<Rightarrow> (created, matched, d'))"

subsection \<open>Secondary enrichment\<close>

definition UpdateGameMetadata ::
  "int \<Rightarrow> string \<Rightarrow> string \<Rightarrow> string \<Rightarrow> string \<Rightarrow> string \<Rightarrow> string \<Rightarrow> string \<Rightarrow> DB \<Rightarrow> DB" where
  \<comment> \<open>\<open>UPDATE games SET title_ja = COALESCE(NULLIF(?, ''), title_ja), description_ja = ...,
      developer = ..., publisher = ..., release_date = ..., genre = ..., players = ...,
      updated_at = CURRENT_TIMESTAMP WHERE id = ?\<close>\<close>
  "UpdateGameMetadata gameID titleJA descJA dev pub releaseDate gen play d =
     d\<lparr>games := map (\<lambda>row. if g_id row = gameID
          then row\<lparr>title_ja := COALESCE (NULLIF titleJA []) (title_ja row),
                   description_ja := COALESCE (NULLIF descJA []) (description_ja row),
                   developer := COALESCE (NULLIF dev []) (developer row),
                   publisher := COALESCE (NULLIF pub []) (publisher row),
                   release_date := COALESCE (NULLIF releaseDate []) (release_date row),
                   genre := COALESCE (NULLIF gen []) (genre row),
                   players := COALESCE (NULLIF play []) (players row)\<rparr>
          else row) (games d)\<rparr>"

section \<open>The scanner: entries of a carrier container\<close>

text \<open>
  \<open>Ext\<close> and \<open>Base\<close> are \<open>filepath.Ext\<close> and \<open>filepath.Base\<close> of Go's library with
  the separator \<open>/\<close>: the suffix of the last path element from its last dot (empty
  without one), and the last path element once trailing separators are removed (\<open>.\<close> for
  the empty path, \<open>/\<close> for a path of separators only).
\<close>

fun ext_scan :: "string \<Rightarrow> string \<Rightarrow> string" where
  \<comment> \<open>the path read from its end; the second argument is what has been passed\<close>
  "ext_scan [] acc = []"
| "ext_scan (c # cs) acc =
     (if c = CHR ''/'' then []
      else if c = CHR ''.'' then c # acc
      else ext_scan cs (c # acc))"

definition Ext :: "string \<Rightarrow> string" where
  "Ext p = ext_scan (rev p) []"

definition Base :: "string \<Rightarrow> string" where
  "Base p =
     (if p = [] then ''.''
      else (let stripped = dropWhile (\<lambda>c. c = CHR ''/'') (rev p);
                elem = rev (takeWhile (\<lambda>c. c \<noteq> CHR ''/'') stripped)
            in if elem = [] then ''/'' else elem))"

definition platformExtensions :: "(string \<times> string list) list" where
  "platformExtensions =
     [(''FC'', [''.nes'']),
      (''SFC'', [''.sfc'', ''.smc'']),
      (''GB'', [''.gb'']),
      (''GBC'', [''.gbc'']),
      (''GBA'', [''.gba'']),
      (''MD'', [''.md'', ''.bin'', ''.gen'']),
      (''PS1'', [''.bin'', ''.cue'', ''.img'', ''.iso'']),
      (''N64'', [''.n64'', ''.z64'', ''.v64'']),
      (''NDS'', [''.nds'']),
      (''PCE'', [''.pce'']),
      (''MSX'', [''.rom'']),
      (''GG'', [''.gg'']),
      (''SMS'', [''.sms'']),
      (''WS'', [''.ws'']),
      (''WSC'', [''.wsc'']),
      (''NGP'', [''.ngp'']),
      (''PCFX'', [''.iso'', ''.bin'', ''.cue'']),
      (''NEOGEO'', [''.zip'']),
      (''PICO8'', [''.p8'', ''.png'']),
      (''PS2'', [''.iso'', ''.bin'', ''.cue'']),
      (''SS'', [''.iso'', ''.bin'', ''.cue'']),
      (''ARCADE'', [''.zip''])]"

definition isValidExtension :: "string \<Rightarrow> string \<Rightarrow> bool" where
  "isValidExtension platform ext =
     (case map_of platformExtensions platform of
        None \<Rightarrow> True
      | Some exts \<Rightarrow> list_ex (\<lambda>e. ext = e) exts)"

record Result =
  Scanned :: int
  Added :: int
  Skipped :: int
  Errors :: int

text \<open>
  An entry of an opened archive (\<open>zip.File\<close>): its name, whether it is a directory, its
  uncompressed size, and what \<open>hashZipEntry\<close> returns for it: the three digests, or
  \<open>None\<close> when the entry cannot be read.
\<close>

record zip_File =
  zf_Name :: string
  zf_IsDir :: bool
  zf_UncompressedSize64 :: "64 word"
  zf_digests :: "(string \<times> string \<times> string) option"

text \<open>
  The body of \<open>for _, f := range r.File\<close> in \<open>scanZipContents\<close>; the state is
  \<open>found\<close>, the store and the counters. The upsert is called with \<open>zipPath\<close> as
  \<open>path\<close> and \<open>filepath.Base(zipPath) + "/" + f.Name\<close> as \<open>filename\<close>.
\<close>

fun scan_zip_entry ::
  "string \<Rightarrow> string \<Rightarrow> zip_File \<Rightarrow> bool \<times> DB \<times> Result \<Rightarrow> bool \<times> DB \<times> Result" where
  "scan_zip_entry zipPath platform f (found, d, res) =
     (if zf_IsDir f then (found, d, res)
      else if \<not> isValidExtension platform (ToLower (Ext (zf_Name f))) then (found, d, res)
      else (case zf_digests f of
              None \<Rightarrow> (True, d, res\<lparr>Scanned := Scanned res + 1, Errors := Errors res + 1\<rparr>)
            | Some (crc, md5h, sha1h) \<Rightarrow>
                (True,
                 UpsertRomFile zipPath (Base zipPath @ ''/'' @ zf_Name f)
                   (zf_UncompressedSize64 f) crc md5h sha1h platform d,
                 res\<lparr>Scanned := Scanned res + 1, Added := Added res + 1\<rparr>)))"

fun scan_zip_entries ::
  "string \<Rightarrow> string \<Rightarrow> zip_File list \<Rightarrow> bool \<times> DB \<times> Result \<Rightarrow> bool \<times> DB \<times> Result" where
  "scan_zip_entries zipPath platform [] st = st"
| "scan_zip_entries zipPath platform (f # fs) st =
     scan_zip_entries zipPath platform fs (scan_zip_entry zipPath platform f st)"

text \<open>
  \<open>scanZipContents\<close>; the archive is \<open>None\<close> when \<open>zip.OpenReader\<close> fails. The result
  is \<open>found\<close> with the store and the counters.
\<close>

definition scanZipContents ::
  "string \<Rightarrow> string \<Rightarrow> zip_File list option \<Rightarrow> DB \<times> Result \<Rightarrow> bool \<times> DB \<times> Result" where
  "scanZipContents zipPath platform r st =
     (case r of
        None \<Rightarrow> (False, fst st, (snd st)\<lparr>Errors := Errors (snd st) + 1\<rparr>)
      | Some files \<Rightarrow> scan_zip_entries zipPath platform files (False, fst st, snd st))"

section \<open>The checksum-database parser: platform from the header\<close>

text \<open>\<open>Contains\<close> is \<open>strings.Contains\<close>: the second string occurs in the first.\<close>

fun HasPrefix :: "string \<Rightarrow> string \<Rightarrow> bool" where
  "HasPrefix s [] = True"
| "HasPrefix [] (p # ps) = False"
| "HasPrefix (c # cs) (p # ps) = (c = p \<and> HasPrefix cs ps)"

fun Contains :: "string \<Rightarrow> string \<Rightarrow> bool" where
  "Contains [] substr = (substr = [])"
| "Contains (c # cs) substr = (HasPrefix (c # cs) substr \<or> Contains cs substr)"

definition patterns :: "(string \<times> string) list" where
  "patterns =
     [(''nintendo entertainment system'', ''FC''),
      (''famicom'', ''FC''),
      (''super nintendo'', ''SFC''),
      (''super famicom'', ''SFC''),
      (''game boy advance'', ''GBA''),
      (''game boy color'', ''GBC''),
      (''game boy'', ''GB''),
      (''mega drive'', ''MD''),
      (''genesis'', ''MD''),
      (''playstation'', ''PS1''),
      (''nintendo 64'', ''N64''),
      (''nintendo ds'', ''NDS''),
      (''pc engine'', ''PCE''),
      (''turbografx'', ''PCE''),
      (''game gear'', ''GG''),
      (''master system'', ''SMS''),
      (''wonderswan color'', ''WSC''),
      (''wonderswan'', ''WS''),
      (''neo geo pocket'', ''NGP'')]"

definition order :: "string list" where
  "order =
     [''game boy advance'', ''game boy color'', ''game boy'',
      ''wonderswan color'', ''wonderswan'',
      ''super nintendo'', ''super famicom'',
      ''nintendo entertainment system'', ''famicom'',
      ''mega drive'', ''genesis'',
      ''nintendo 64'', ''nintendo ds'',
      ''pc engine'', ''turbografx'',
      ''game gear'', ''master system'',
      ''neo geo pocket'', ''playstation'']"

text \<open>
  The loop \<open>for _, pattern := range order\<close>: the first pattern the lowered name contains
  decides; \<open>patterns[pattern]\<close> of a key the map lacks is the empty string.
\<close>

fun first_pattern :: "string \<Rightarrow> string list \<Rightarrow> string" where
  "first_pattern lower [] = []"
| "first_pattern lower (pattern # rest) =
     (if Contains lower pattern
      then (case map_of patterns pattern of Some platform \<Rightarrow> platform | None \<Rightarrow> [])
      else first_pattern lower rest)"

definition detectPlatformFromHeader :: "string \<Rightarrow> string" where
  "detectPlatformFromHeader name = first_pattern (ToLower name) order"

text \<open>
  Platform resolution as \<open>parseXML\<close> and \<open>parseClrMamePro\<close> do it: an empty \<open>platform\<close>
  argument is replaced by what the header name gives, and a platform still empty is the
  error \<open>cannot detect platform from DAT header\<close> (\<open>None\<close>).
\<close>

definition resolve_platform :: "string \<Rightarrow> string \<Rightarrow> string option" where
  "resolve_platform platform headerName =
     (let p = (if platform = [] then detectPlatformFromHeader headerName else platform)
      in if p = [] then None else Some p)"

section \<open>Notions used in the properties\<close>

text \<open>
  Two relations between a store and a later one, used to state what the hash-based
  match leaves alone. \<open>row_kept\<close>: a row of \<open>rom_files\<close> is as it was, or it had no link
  and has got one. \<open>game_kept\<close>: a row of \<open>games\<close> is as it was, or its English title was
  \<open>NULL\<close> or empty and has been set.
\<close>

definition row_kept :: "rom_files_row \<Rightarrow> rom_files_row \<Rightarrow> bool" where
  "row_kept r r' = (r' = r \<or> (game_id r = None \<and> (\<exists>g. r' = r\<lparr>game_id := Some g\<rparr>)))"

definition game_kept :: "games_row \<Rightarrow> games_row \<Rightarrow> bool" where
  "game_kept row row' =
     (row' = row \<or> ((title_en row = None \<or> title_en row = Some []) \<and>
        (\<exists>t. row' = row\<lparr>title_en := Some t\<rparr>)))"

definition store_kept :: "DB \<Rightarrow> DB \<Rightarrow> bool" where
  "store_kept d d' =
     (list_all2 row_kept (rom_files d) (rom_files d')
      \<and> list_all2 game_kept (games d) (take (length (games d)) (games d'))
      \<and> length (games d) \<le> length (games d'))"

text \<open>
  The links read by the query are those of the store: every row with the id of a match
  has the link the match records.
\<close>

definition snapshot_of :: "DB \<Rightarrow> romMatch list \<Rightarrow> bool" where
  "snapshot_of d ms =
     (distinct (map rm_id ms) \<and>
      list_all (\<lambda>rm. list_all (\<lambda>r. rf_id r \<noteq> rm_id rm \<or> game_id r = rm_gameID rm) (rom_files d)) ms)"

text \<open>The game a file without link is given: the one found, or the one inserted.\<close>

definition found_or_created :: "DATRom \<Rightarrow> DB \<Rightarrow> int \<times> DB" where
  "found_or_created dr d =
     (case select_game_by_title_en (GameTitle dr) (Platform dr) d of
        Some gameID \<Rightarrow> (gameID, d)
      | None \<Rightarrow> insert_game_title_en (GameTitle dr) (Platform dr) d)"

text \<open>The rows an entry's query selects that have no link.\<close>

definition unlinked_matches :: "DATRom \<Rightarrow> DB \<Rightarrow> rom_files_row list" where
  "unlinked_matches dr d =
     (case select_query dr of
        None \<Rightarrow> []
      | Some (q, v) \<Rightarrow> filter (\<lambda>r. hash_column q r = v \<and> game_id r = None) (rom_files d))"




section \<open>Example stores\<close>

text \<open>Concrete rows and stores on which the properties below are instantiated.\<close>

definition ex_row :: rom_files_row where
  "ex_row = \<lparr>rf_id = 1, path = ''/roms/fc/a.nes'', filename = ''a.nes'', rf_size = 16,
     hash_crc32 = ''0000AAAA'', hash_md5 = ''M1'', hash_sha1 = ''S1'', rf_platform = ''FC'',
     game_id = Some 7\<rparr>"

definition ex_game :: games_row where
  "ex_game = \<lparr>g_id = 7, title_en = None, title_ja = Some ''1944'', description_ja = None,
     g_platform = ''FC'', developer = Some ''Capcom'', publisher = None, release_date = None,
     genre = None, players = None, rating = None\<rparr>"

definition ex_store :: DB where
  "ex_store = \<lparr>games = [ex_game], rom_files = [ex_row]\<rparr>"

definition ex_entry :: GameListEntry where
  "ex_entry = \<lparr>Filename = ''a.nes'', Name = ''1944'', Desc = [], ReleaseDate = [],
     Developer = ''Konami'', Publisher = [], Genre = [], Players = [], Rating = []\<rparr>"

definition ex_zip :: "zip_File list" where
  "ex_zip =
     [\<lparr>zf_Name = ''a.nes'', zf_IsDir = False, zf_UncompressedSize64 = 16,
       zf_digests = Some (''0000000A'', ''MA'', ''SA'')\<rparr>,
      \<lparr>zf_Name = ''b.nes'', zf_IsDir = False, zf_UncompressedSize64 = 32,
       zf_digests = Some (''0000000B'', ''MB'', ''SB'')\<rparr>]"

definition empty_store :: DB where
  "empty_store = \<lparr>games = [], rom_files = []\<rparr>"

definition no_result :: Result where
  "no_result = \<lparr>Scanned = 0, Added = 0, Skipped = 0, Errors = 0\<rparr>"

definition ex_dat :: DATRom where
  "ex_dat = \<lparr>GameTitle = ''Super Mario Bros. (World)'', Platform = ''FC'', CRC32 = ''3337EC46'',
     MD5 = ''811B027EAF99C2DEF7B933C5208636DE'',
     SHA1 = ''FACEE9C577A5262DBE33AC4930BB0B58C8C037F7'', Size = 40976\<rparr>"

definition ex_unlinked :: rom_files_row where
  "ex_unlinked = \<lparr>rf_id = 1, path = ''/roms/gb/smb.nes'', filename = ''smb.nes'', rf_size = 40976,
     hash_crc32 = ''3337EC46'', hash_md5 = ''811B027EAF99C2DEF7B933C5208636DE'',
     hash_sha1 = ''FACEE9C577A5262DBE33AC4930BB0B58C8C037F7'', rf_platform = ''GB'',
     game_id = None\<rparr>"

definition ex_scanned :: DB where
  "ex_scanned = \<lparr>games = [], rom_files = [ex_unlinked]\<rparr>"

definition ex_titled :: games_row where
  "ex_titled = \<lparr>g_id = 7, title_en = Some ''Mario (J)'', title_ja = None, description_ja = None,
     g_platform = ''FC'', developer = None, publisher = None, release_date = None,
     genre = None, players = None, rating = None\<rparr>"

definition ex_linked :: DB where
  "ex_linked = \<lparr>games = [ex_titled], rom_files = [ex_unlinked\<lparr>game_id := Some 7\<rparr>]\<rparr>"

definition ex_nohash :: DATRom where
  "ex_nohash = \<lparr>GameTitle = ''No Dump'', Platform = ''FC'', CRC32 = [], MD5 = [], SHA1 = [],
     Size = 0\<rparr>"

definition ex_other_game :: games_row where
  "ex_other_game = \<lparr>g_id = 3, title_en = Some ''Another Game'', title_ja = None,
     description_ja = None, g_platform = ''FC'', developer = None, publisher = None,
     release_date = None, genre = None, players = None, rating = None\<rparr>"



definition ex_relink_dir :: DB where
  "ex_relink_dir = \<lparr>games = [ex_other_game, ex_game],
     rom_files = [ex_row\<lparr>game_id := Some 3\<rparr>,
       ex_row\<lparr>rf_id := 2, path := ''/roms/fc/d/a.nes'', filename := ''d/a.nes'',
         game_id := Some 3\<rparr>]\<rparr>"



section \<open>Properties\<close>

subsection \<open>Row identifiers\<close>

lemma fold_max_ge: "(a::int) \<le> fold max xs a"
  by (induction xs arbitrary: a) (auto intro: order_trans [OF max.cobounded2])

lemma fold_max_mem: "(y::int) \<in> set xs \<Longrightarrow> y \<le> fold max xs a"
proof (induction xs arbitrary: a)
  case Nil
  then show ?case by simp
next
  case (Cons x xs)
  show ?case
  proof (cases "y = x")
    case True
    have "y \<le> max x a" using True by simp
    also have "\<dots> \<le> fold max xs (max x a)" by (rule fold_max_ge)
    finally show ?thesis by simp
  next
    case False
    with Cons show ?thesis by simp
  qed
qed

lemma next_rowid_fresh: "y \<in> set ids \<Longrightarrow> y < next_rowid ids"
proof (cases ids)
  case Nil
  assume "y \<in> set ids"
  with Nil show ?thesis by simp
next
  case (Cons x xs)
  assume y: "y \<in> set ids"
  have "y \<le> fold max xs x"
  proof (cases "y = x")
    case True
    then show ?thesis by (simp add: fold_max_ge)
  next
    case False
    with y Cons show ?thesis by (simp add: fold_max_mem)
  qed
  with Cons show ?thesis by simp
qed

lemma next_rowid_notin: "next_rowid ids \<notin> set ids"
  using next_rowid_fresh [of "next_rowid ids" ids] by auto

subsection \<open>Scan upsert\<close>

lemma UpsertRomFile_games [simp]:
  "games (UpsertRomFile p fname sz crc32 md5 sha1 plat d) = games d"
  by (simp add: UpsertRomFile_def)

lemma on_conflict_update_keeps [simp]:
  "path (on_conflict_update p fname sz crc32 md5 sha1 plat r) = path r"
  "rf_id (on_conflict_update p fname sz crc32 md5 sha1 plat r) = rf_id r"
  "game_id (on_conflict_update p fname sz crc32 md5 sha1 plat r) = game_id r"
  by (simp_all add: on_conflict_update_def)

lemma on_conflict_update_idem [simp]:
  "on_conflict_update p fname sz crc32 md5 sha1 plat
     (on_conflict_update p fname sz crc32 md5 sha1 plat r)
   = on_conflict_update p fname sz crc32 md5 sha1 plat r"
  by (simp add: on_conflict_update_def)

lemma UpsertRomFile_wf:
  assumes "wf_db d"
  shows "wf_db (UpsertRomFile p fname sz crc32 md5 sha1 plat d)"
proof (cases "list_ex (\<lambda>r. path r = p) (rom_files d)")
  case True
  with assms show ?thesis
    by (simp add: wf_db_def UpsertRomFile_def comp_def)
next
  case False
  then have "p \<notin> set (map path (rom_files d))"
    by (auto simp: list_ex_iff)
  with assms False next_rowid_notin [of "map rf_id (rom_files d)"] show ?thesis
    by (simp add: wf_db_def UpsertRomFile_def)
qed

lemma on_conflict_update_miss:
  "\<not> list_ex (\<lambda>r. path r = p) rows \<Longrightarrow>
     map (on_conflict_update p fname sz crc32 md5 sha1 plat) rows = rows"
  by (induction rows) (auto simp: on_conflict_update_def)

lemma UpsertRomFile_idem:
  "UpsertRomFile p fname sz crc32 md5 sha1 plat
     (UpsertRomFile p fname sz crc32 md5 sha1 plat d)
   = UpsertRomFile p fname sz crc32 md5 sha1 plat d"
proof (cases "list_ex (\<lambda>r. path r = p) (rom_files d)")
  case True
  then have "list_ex (\<lambda>r. path r = p)
      (map (on_conflict_update p fname sz crc32 md5 sha1 plat) (rom_files d))"
    by (simp add: list_ex_iff)
  with True show ?thesis
    by (simp add: UpsertRomFile_def comp_def)
next
  case False
  then show ?thesis
    by (simp add: UpsertRomFile_def on_conflict_update_miss)
      (simp add: on_conflict_update_def)
qed

text \<open>
  C9. Re-scanning a file whose identity key (\<open>path\<close>) is already in the store: the upsert
  creates no second row, replaces \<open>filename\<close>, \<open>size\<close>, the three hashes and
  \<open>platform\<close> of the row with that key in place, leaves every row's \<open>game_id\<close> and
  \<open>path\<close> as it was (so the key stays unique), leaves the rows of other keys and the
  table \<open>games\<close> untouched, and doing it a second time with the same arguments changes
  nothing more. (The column \<open>updated_at\<close>, which every upsert stamps, is outside the
  model.)
\<close>

theorem UpsertRomFile_rescan:
  assumes "i < length (rom_files d)" and "path (rom_files d ! i) = p"
  shows "length (rom_files (UpsertRomFile p fname sz crc32 md5 sha1 plat d)) = length (rom_files d)
    \<and> rom_files (UpsertRomFile p fname sz crc32 md5 sha1 plat d) ! i =
        (rom_files d ! i)\<lparr>filename := fname, rf_size := sz, hash_crc32 := crc32,
             hash_md5 := md5, hash_sha1 := sha1, rf_platform := plat\<rparr>
    \<and> map game_id (rom_files (UpsertRomFile p fname sz crc32 md5 sha1 plat d)) =
        map game_id (rom_files d)
    \<and> map path (rom_files (UpsertRomFile p fname sz crc32 md5 sha1 plat d)) =
        map path (rom_files d)
    \<and> (\<forall>j < length (rom_files d). path (rom_files d ! j) \<noteq> p \<longrightarrow>
          rom_files (UpsertRomFile p fname sz crc32 md5 sha1 plat d) ! j = rom_files d ! j)
    \<and> games (UpsertRomFile p fname sz crc32 md5 sha1 plat d) = games d
    \<and> UpsertRomFile p fname sz crc32 md5 sha1 plat
         (UpsertRomFile p fname sz crc32 md5 sha1 plat d)
        = UpsertRomFile p fname sz crc32 md5 sha1 plat d"
proof -
  from assms have hit: "list_ex (\<lambda>r. path r = p) (rom_files d)"
    by (auto simp: list_ex_iff)
  then have rows: "rom_files (UpsertRomFile p fname sz crc32 md5 sha1 plat d) =
      map (on_conflict_update p fname sz crc32 md5 sha1 plat) (rom_files d)"
    by (simp add: UpsertRomFile_def)
  have "rom_files (UpsertRomFile p fname sz crc32 md5 sha1 plat d) ! i =
        (rom_files d ! i)\<lparr>filename := fname, rf_size := sz, hash_crc32 := crc32,
             hash_md5 := md5, hash_sha1 := sha1, rf_platform := plat\<rparr>"
    using assms by (simp add: rows on_conflict_update_def)
  moreover have "\<forall>j < length (rom_files d). path (rom_files d ! j) \<noteq> p \<longrightarrow>
          rom_files (UpsertRomFile p fname sz crc32 md5 sha1 plat d) ! j = rom_files d ! j"
    by (simp add: rows on_conflict_update_def)
  ultimately show ?thesis
    by (simp add: rows comp_def UpsertRomFile_idem)
qed

theorem UpsertRomFile_rescan_witness:
  "rom_files (UpsertRomFile ''/roms/fc/a.nes'' ''a.nes'' 24 ''0000BBBB'' ''M2'' ''S2'' ''FC''
       \<lparr>games = [], rom_files = [ex_row]\<rparr>)
     = [\<lparr>rf_id = 1, path = ''/roms/fc/a.nes'', filename = ''a.nes'', rf_size = 24,
         hash_crc32 = ''0000BBBB'', hash_md5 = ''M2'', hash_sha1 = ''S2'', rf_platform = ''FC'',
         game_id = Some 7\<rparr>]"
proof -
  have h1: "0 < length (rom_files \<lparr>games = [], rom_files = [ex_row]\<rparr>)" by simp
  have h2: "path (rom_files \<lparr>games = [], rom_files = [ex_row]\<rparr> ! 0) = ''/roms/fc/a.nes''"
    by (simp add: ex_row_def)
  from UpsertRomFile_rescan [OF h1 h2, of "''a.nes''" 24 "''0000BBBB''" "''M2''" "''S2''" "''FC''"]
  have len: "length (rom_files (UpsertRomFile ''/roms/fc/a.nes'' ''a.nes'' 24 ''0000BBBB'' ''M2'' ''S2'' ''FC''
       \<lparr>games = [], rom_files = [ex_row]\<rparr>)) = 1"
    and row: "rom_files (UpsertRomFile ''/roms/fc/a.nes'' ''a.nes'' 24 ''0000BBBB'' ''M2'' ''S2'' ''FC''
       \<lparr>games = [], rom_files = [ex_row]\<rparr>) ! 0 = ex_row\<lparr>filename := ''a.nes'', rf_size := 24, hash_crc32 := ''0000BBBB'',
             hash_md5 := ''M2'', hash_sha1 := ''S2'', rf_platform := ''FC''\<rparr>"
    by simp_all
  show ?thesis
    using len row by (cases "rom_files (UpsertRomFile ''/roms/fc/a.nes'' ''a.nes'' 24 ''0000BBBB'' ''M2'' ''S2'' ''FC''
       \<lparr>games = [], rom_files = [ex_row]\<rparr>)") (simp_all add: ex_row_def)
qed

subsection \<open>Entries of a carrier container\<close>

text \<open>
  C2. The claim gives every qualifying entry of a carrier container a distinct
  FileRecord of its own. \<open>scanZipContents\<close> hashes, upserts and counts every qualifying
  entry, but it passes the container's path as the key of each upsert: scanning the
  container \<open>/roms/fc/game.zip\<close> of platform \<open>FC\<close> with the two qualifying entries
  \<open>a.nes\<close> and \<open>b.nes\<close> into an empty store counts two added files and leaves one row,
  keyed \<open>/roms/fc/game.zip\<close> and named \<open>game.zip/b.nes\<close>. The second upsert has
  replaced the row of the first, and no row is left for \<open>a.nes\<close>.
\<close>

theorem scanZipContents_two_entries_one_row:
  "scanZipContents ''/roms/fc/game.zip'' ''FC'' (Some ex_zip) (empty_store, no_result)
   = (True,
      \<lparr>games = [],
       rom_files = [\<lparr>rf_id = 1, path = ''/roms/fc/game.zip'', filename = ''game.zip/b.nes'',
                     rf_size = 32, hash_crc32 = ''0000000B'', hash_md5 = ''MB'',
                     hash_sha1 = ''SB'', rf_platform = ''FC'', game_id = None\<rparr>]\<rparr>,
      \<lparr>Scanned = 2, Added = 2, Skipped = 0, Errors = 0\<rparr>)"
  by (simp add: scanZipContents_def ex_zip_def empty_store_def no_result_def
      isValidExtension_def platformExtensions_def Ext_def Base_def ToLower_def lower_char_def
      UpsertRomFile_def on_conflict_update_def)

subsection \<open>Hash-based match: steps\<close>

lemma set_game_id_games [simp]: "games (set_game_id g rid d) = games d"
  by (simp add: set_game_id_def)

lemma update_title_en_if_empty_rom_files [simp]:
  "rom_files (update_title_en_if_empty t g d) = rom_files d"
  by (simp add: update_title_en_if_empty_def)

lemma update_title_en_if_empty_ids [simp]:
  "map g_id (games (update_title_en_if_empty t g d)) = map g_id (games d)"
  by (simp add: update_title_en_if_empty_def comp_def)

lemma insert_game_title_en_simps [simp]:
  "fst (insert_game_title_en t p d) = next_rowid (map g_id (games d))"
  "rom_files (snd (insert_game_title_en t p d)) = rom_files d"
  "games (snd (insert_game_title_en t p d)) = games d @
     [\<lparr>g_id = next_rowid (map g_id (games d)), title_en = Some t, title_ja = None,
       description_ja = None, g_platform = p, developer = None, publisher = None,
       release_date = None, genre = None, players = None, rating = None\<rparr>]"
  by (simp_all add: insert_game_title_en_def Let_def)

lemma set_game_id_ids [simp]:
  "map rf_id (rom_files (set_game_id g rid d)) = map rf_id (rom_files d)"
  "map path (rom_files (set_game_id g rid d)) = map path (rom_files d)"
  by (simp_all add: set_game_id_def comp_def)

lemma select_game_by_title_en_Some:
  "select_game_by_title_en t p d = Some g \<Longrightarrow>
     \<exists>row \<in> set (games d). g_id row = g \<and> title_en row = Some t \<and> g_platform row = p"
  by (auto simp: select_game_by_title_en_def find_Some_iff)

lemma match_rom_None:
  "rm_gameID rm = None \<Longrightarrow>
     match_rom dr rm (d, m) =
       (set_game_id (fst (found_or_created dr d)) (rm_id rm) (snd (found_or_created dr d)), m + 1)"
  by (simp add: found_or_created_def insert_game_title_en_def Let_def split: option.splits)

lemma match_rom_Some:
  "rm_gameID rm = Some g \<Longrightarrow>
     match_rom dr rm (d, m) = (update_title_en_if_empty (GameTitle dr) g d, m + 1)"
  by simp

lemma found_or_created_rom_files [simp]:
  "rom_files (snd (found_or_created dr d)) = rom_files d"
  by (simp add: found_or_created_def split: option.splits)

lemma found_or_created_game:
  "\<exists>row \<in> set (games (snd (found_or_created dr d))).
      g_id row = fst (found_or_created dr d) \<and> title_en row = Some (GameTitle dr)
      \<and> g_platform row = Platform dr"
proof (cases "select_game_by_title_en (GameTitle dr) (Platform dr) d")
  case None
  then show ?thesis by (simp add: found_or_created_def)
next
  case (Some g)
  with select_game_by_title_en_Some [OF Some] show ?thesis
    by (simp add: found_or_created_def)
qed

lemma found_or_created_games:
  "games (snd (found_or_created dr d)) = games d
   \<or> games (snd (found_or_created dr d)) = games d @
        [\<lparr>g_id = next_rowid (map g_id (games d)), title_en = Some (GameTitle dr),
          title_ja = None, description_ja = None, g_platform = Platform dr, developer = None,
          publisher = None, release_date = None, genre = None, players = None,
          rating = None\<rparr>]"
  by (simp add: found_or_created_def split: option.splits)

lemma found_or_created_distinct:
  "distinct (map g_id (games d)) \<Longrightarrow> distinct (map g_id (games (snd (found_or_created dr d))))"
  using found_or_created_games [of dr d] next_rowid_notin [of "map g_id (games d)"]
  by auto

lemma match_rom_rf_ids:
  "map rf_id (rom_files (fst (match_rom dr rm (d, m)))) = map rf_id (rom_files d)"
  "map path (rom_files (fst (match_rom dr rm (d, m)))) = map path (rom_files d)"
  by (cases "rm_gameID rm"; simp add: match_rom_None match_rom_Some del: match_rom.simps)+

lemma match_rom_g_ids_distinct:
  "distinct (map g_id (games d)) \<Longrightarrow> distinct (map g_id (games (fst (match_rom dr rm (d, m)))))"
  by (cases "rm_gameID rm")
    (simp_all add: match_rom_None match_rom_Some found_or_created_distinct del: match_rom.simps)

lemma match_rom_snd: "snd (match_rom dr rm (d, m)) = m + 1"
  by (cases "rm_gameID rm") (simp_all add: match_rom_None match_rom_Some del: match_rom.simps)


subsection \<open>Hash-based match: what is kept\<close>

lemma row_kept_refl [simp]: "row_kept r r"
  by (simp add: row_kept_def)

lemma row_kept_trans: "row_kept a b \<Longrightarrow> row_kept b c \<Longrightarrow> row_kept a c"
  by (auto simp: row_kept_def)

lemma game_kept_refl [simp]: "game_kept r r"
  by (simp add: game_kept_def)

lemma game_kept_trans: "game_kept a b \<Longrightarrow> game_kept b c \<Longrightarrow> game_kept a c"
  by (auto simp: game_kept_def)

lemma store_kept_refl [simp]: "store_kept d d"
  by (simp add: store_kept_def list_all2_refl)

lemma store_kept_trans:
  assumes "store_kept a b" and "store_kept b c"
  shows "store_kept a c"
proof -
  have rows: "list_all2 row_kept (rom_files a) (rom_files c)"
    using assms row_kept_trans
    by (auto simp: store_kept_def elim: list_all2_trans [rotated])
  have len: "length (games a) \<le> length (games b)" "length (games b) \<le> length (games c)"
    using assms by (simp_all add: store_kept_def)
  have "game_kept (games a ! i) (games c ! i)" if "i < length (games a)" for i
  proof -
    from assms(1) that have "game_kept (games a ! i) (games b ! i)"
      by (auto simp: store_kept_def list_all2_conv_all_nth)
    moreover from assms(2) that len have "game_kept (games b ! i) (games c ! i)"
      by (auto simp: store_kept_def list_all2_conv_all_nth)
    ultimately show ?thesis by (rule game_kept_trans)
  qed
  with len have "list_all2 game_kept (games a) (take (length (games a)) (games c))"
    by (simp add: list_all2_conv_all_nth)
  with rows len show ?thesis
    by (simp add: store_kept_def)
qed

lemma store_kept_ids:
  assumes "store_kept d d'"
  shows "map rf_id (rom_files d') = map rf_id (rom_files d)"
    and "map path (rom_files d') = map path (rom_files d)"
proof -
  from assms have l: "list_all2 row_kept (rom_files d) (rom_files d')"
    by (simp add: store_kept_def)
  then have "length (rom_files d') = length (rom_files d)"
    by (simp add: list_all2_lengthD)
  moreover have "rf_id (rom_files d' ! i) = rf_id (rom_files d ! i)
      \<and> path (rom_files d' ! i) = path (rom_files d ! i)" if "i < length (rom_files d)" for i
    using list_all2_nthD [OF l that] by (auto simp: row_kept_def)
  ultimately show "map rf_id (rom_files d') = map rf_id (rom_files d)"
    and "map path (rom_files d') = map path (rom_files d)"
    by (simp_all add: list_eq_iff_nth_eq)
qed

lemma update_title_en_if_empty_kept: "store_kept d (update_title_en_if_empty t g d)"
proof -
  have "list_all2 game_kept rows
      (map (\<lambda>row. if g_id row = g \<and> (title_en row = None \<or> title_en row = Some [])
                   then row\<lparr>title_en := Some t\<rparr> else row) rows)" for rows
    by (induction rows) (auto simp: game_kept_def)
  then show ?thesis
    by (simp add: store_kept_def update_title_en_if_empty_def list_all2_refl)
qed

lemma found_or_created_kept: "store_kept d (snd (found_or_created dr d))"
  using found_or_created_games [of dr d]
  by (auto simp: store_kept_def list_all2_refl)

lemma set_game_id_kept:
  assumes "list_all (\<lambda>r. rf_id r \<noteq> rid \<or> game_id r = None) (rom_files d)"
  shows "store_kept d (set_game_id g rid d)"
proof -
  have "list_all (\<lambda>r. rf_id r \<noteq> rid \<or> game_id r = None) rows \<Longrightarrow>
     list_all2 row_kept rows
       (map (\<lambda>r. if rf_id r = rid then r\<lparr>game_id := Some g\<rparr> else r) rows)" for rows
    by (induction rows) (auto simp: row_kept_def)
  with assms show ?thesis
    by (simp add: store_kept_def set_game_id_def list_all2_refl)
qed

lemma match_rom_kept:
  assumes "list_all (\<lambda>r. rf_id r \<noteq> rm_id rm \<or> game_id r = rm_gameID rm) (rom_files (fst st))"
  shows "store_kept (fst st) (fst (match_rom dr rm st))"
proof (cases st)
  case (Pair d m)
  show ?thesis
  proof (cases "rm_gameID rm")
    case None
    with assms Pair
    have "store_kept (snd (found_or_created dr d))
        (set_game_id (fst (found_or_created dr d)) (rm_id rm) (snd (found_or_created dr d)))"
      by (intro set_game_id_kept) simp
    with found_or_created_kept [of d dr] Pair None show ?thesis
      by (auto simp: match_rom_None simp del: match_rom.simps intro: store_kept_trans)
  next
    case (Some g)
    with Pair show ?thesis
      by (simp add: update_title_en_if_empty_kept)
  qed
qed

lemma match_rom_snapshot:
  assumes "snapshot_of (fst st) (rm # ms)"
  shows "snapshot_of (fst (match_rom dr rm st)) ms"
proof (cases st)
  case (Pair d m)
  from assms Pair have dist: "distinct (map rm_id ms)" and notin: "rm_id rm \<notin> rm_id ` set ms"
    and snap: "\<forall>rm' \<in> set ms. \<forall>r \<in> set (rom_files d).
        rf_id r \<noteq> rm_id rm' \<or> game_id r = rm_gameID rm'"
    by (auto simp: snapshot_of_def list_all_iff)
  show ?thesis
  proof (cases "rm_gameID rm")
    case None
    have "rf_id r' \<noteq> rm_id rm' \<or> game_id r' = rm_gameID rm'"
      if "rm' \<in> set ms" and "r' \<in> set (rom_files (fst (match_rom dr rm (d, m))))" for rm' r'
    proof -
      from that(2) None obtain r where r: "r \<in> set (rom_files d)"
        and r': "r' = (if rf_id r = rm_id rm
                      then r\<lparr>game_id := Some (fst (found_or_created dr d))\<rparr> else r)"
        by (auto simp: match_rom_None set_game_id_def simp del: match_rom.simps)
      from that(1) notin have "rm_id rm' \<noteq> rm_id rm" by (metis imageI)
      with snap that(1) r r' show ?thesis by auto
    qed
    with dist Pair show ?thesis
      by (simp add: snapshot_of_def list_all_iff del: match_rom.simps)
  next
    case (Some g)
    with dist snap Pair show ?thesis
      by (simp add: snapshot_of_def list_all_iff)
  qed
qed

lemma match_roms_kept:
  "snapshot_of (fst st) ms \<Longrightarrow> store_kept (fst st) (fst (match_roms dr ms st))"
proof (induction ms arbitrary: st)
  case Nil
  then show ?case by simp
next
  case (Cons rm ms)
  from Cons.prems
  have "list_all (\<lambda>r. rf_id r \<noteq> rm_id rm \<or> game_id r = rm_gameID rm) (rom_files (fst st))"
    by (simp add: snapshot_of_def)
  then have "store_kept (fst st) (fst (match_rom dr rm st))"
    by (rule match_rom_kept)
  moreover have "store_kept (fst (match_rom dr rm st)) (fst (match_roms dr ms (match_rom dr rm st)))"
    by (rule Cons.IH) (rule match_rom_snapshot [OF Cons.prems])
  ultimately show ?case
    by (auto intro: store_kept_trans)
qed

lemma query_matches_snapshot:
  assumes "distinct (map rf_id (rom_files d))"
  shows "snapshot_of d (query_matches q v d)"
proof -
  have "map rm_id (query_matches q v d) = map rf_id (filter (\<lambda>r. hash_column q r = v) (rom_files d))"
    by (simp add: query_matches_def comp_def)
  with assms have "distinct (map rm_id (query_matches q v d))"
    by (simp add: distinct_map_filter)
  moreover have "rf_id r \<noteq> rm_id rm \<or> game_id r = rm_gameID rm"
    if "rm \<in> set (query_matches q v d)" and "r \<in> set (rom_files d)" for rm r
  proof -
    from that(1) obtain r0 where "r0 \<in> set (rom_files d)" "rm_id rm = rf_id r0"
      "rm_gameID rm = game_id r0"
      by (auto simp: query_matches_def)
    with assms that(2) show ?thesis
      by (auto simp: distinct_map dest: inj_onD)
  qed
  ultimately show ?thesis
    by (simp add: snapshot_of_def list_all_iff)
qed

lemma match_dat_rom_kept:
  assumes "distinct (map rf_id (rom_files (fst st)))"
  shows "store_kept (fst st) (fst (match_dat_rom dr st))"
  using match_roms_kept [OF query_matches_snapshot [OF assms]]
  by (simp add: match_dat_rom_def Let_def split: option.splits)

subsection \<open>Hash-based match: the whole batch\<close>

lemma match_dat_rom_wf:
  assumes "wf_db (fst st)"
  shows "wf_db (fst (match_dat_rom dr st))"
proof -
  have g: "distinct (map g_id (games (fst (match_roms dr ms st))))"
    if "distinct (map g_id (games (fst st)))" for ms
    using that
  proof (induction ms arbitrary: st)
    case Nil
    then show ?case by simp
  next
    case (Cons rm ms)
    from Cons.prems have "distinct (map g_id (games (fst (match_rom dr rm st))))"
      by (cases st) (simp add: match_rom_g_ids_distinct del: match_rom.simps)
    then show ?case
      using Cons.IH by simp
  qed
  from assms have "distinct (map rf_id (rom_files (fst st)))"
    by (simp add: wf_db_def)
  then have "store_kept (fst st) (fst (match_dat_rom dr st))"
    by (rule match_dat_rom_kept)
  from store_kept_ids [OF this] assms g [of "query_matches q v (fst st)" for q v]
  show ?thesis
    by (auto simp: wf_db_def match_dat_rom_def Let_def split: option.splits)
qed

lemma match_dat_roms_wf_kept:
  "wf_db (fst st) \<Longrightarrow>
     wf_db (fst (match_dat_roms drs st)) \<and> store_kept (fst st) (fst (match_dat_roms drs st))"
proof (induction drs arbitrary: st)
  case Nil
  then show ?case by simp
next
  case (Cons dr drs)
  from Cons.prems have wf1: "wf_db (fst (match_dat_rom dr st))"
    by (rule match_dat_rom_wf)
  from Cons.prems have "store_kept (fst st) (fst (match_dat_rom dr st))"
    by (intro match_dat_rom_kept) (simp add: wf_db_def)
  with Cons.IH [OF wf1] show ?case
    by (auto intro: store_kept_trans)
qed

lemma store_kept_linked_row:
  assumes "store_kept d d'" and "i < length (rom_files d)" and "game_id (rom_files d ! i) \<noteq> None"
  shows "rom_files d' ! i = rom_files d ! i"
proof -
  from assms(1,2) have "row_kept (rom_files d ! i) (rom_files d' ! i)"
    by (simp add: store_kept_def list_all2_nthD)
  with assms(3) show ?thesis
    by (auto simp: row_kept_def)
qed

lemma store_kept_titled_game:
  assumes "store_kept d d'" and "i < length (games d)"
    and "title_en (games d ! i) \<noteq> None" and "title_en (games d ! i) \<noteq> Some []"
  shows "games d' ! i = games d ! i"
proof -
  from assms(1) have "list_all2 game_kept (games d) (take (length (games d)) (games d'))"
    by (simp add: store_kept_def)
  from list_all2_nthD [OF this assms(2)] assms(2)
  have "game_kept (games d ! i) (games d' ! i)"
    by simp
  with assms(3,4) show ?thesis
    by (auto simp: game_kept_def)
qed

lemma match_roms_row_untouched:
  "r \<in> set (rom_files (fst st)) \<Longrightarrow> rf_id r \<notin> rm_id ` set ms \<Longrightarrow>
     r \<in> set (rom_files (fst (match_roms dr ms st)))"
proof (induction ms arbitrary: st)
  case Nil
  then show ?case by simp
next
  case (Cons rm ms)
  from Cons.prems(2) have ne: "rf_id r \<noteq> rm_id rm" and rest: "rf_id r \<notin> rm_id ` set ms"
    by simp_all
  have "r \<in> set (rom_files (fst (match_rom dr rm st)))"
  proof (cases st)
    case (Pair d m)
    with Cons.prems(1) ne show ?thesis
      by (cases "rm_gameID rm")
        (force simp: match_rom_None match_rom_Some set_game_id_def simp del: match_rom.simps)+
  qed
  from Cons.IH [OF this rest] show ?case by simp
qed

lemma match_rom_game_stays:
  assumes "\<exists>row \<in> set (games (fst st)). g_id row = g \<and> title_en row = Some (GameTitle dr)
      \<and> g_platform row = p"
  shows "\<exists>row \<in> set (games (fst (match_rom dr rm st))). g_id row = g
      \<and> title_en row = Some (GameTitle dr) \<and> g_platform row = p"
proof (cases st)
  case (Pair d m)
  from assms Pair obtain row where row: "row \<in> set (games d)" "g_id row = g"
    "title_en row = Some (GameTitle dr)" "g_platform row = p"
    by auto
  show ?thesis
  proof (cases "rm_gameID rm")
    case None
    from found_or_created_games [of dr d] row(1)
    have "row \<in> set (games (snd (found_or_created dr d)))" by auto
    with row None Pair show ?thesis
      by (auto simp: match_rom_None simp del: match_rom.simps)
  next
    case (Some g')
    let ?f = "\<lambda>row. if g_id row = g' \<and> (title_en row = None \<or> title_en row = Some [])
      then row\<lparr>title_en := Some (GameTitle dr)\<rparr> else row"
    from row(1) have "?f row \<in> set (games (update_title_en_if_empty (GameTitle dr) g' d))"
      by (simp add: update_title_en_if_empty_def)
    moreover from row have "g_id (?f row) = g \<and> title_en (?f row) = Some (GameTitle dr)
        \<and> g_platform (?f row) = p"
      by simp
    ultimately show ?thesis
      using Some Pair by (auto simp del: match_rom.simps simp: match_rom_Some)
  qed
qed

lemma match_roms_game_stays:
  "\<exists>row \<in> set (games (fst st)). g_id row = g \<and> title_en row = Some (GameTitle dr)
      \<and> g_platform row = p \<Longrightarrow>
   \<exists>row \<in> set (games (fst (match_roms dr ms st))). g_id row = g
      \<and> title_en row = Some (GameTitle dr) \<and> g_platform row = p"
proof (induction ms arbitrary: st)
  case Nil
  then show ?case by simp
next
  case (Cons rm ms)
  from Cons.IH [OF match_rom_game_stays [OF Cons.prems]] show ?case by simp
qed


lemma match_roms_links:
  assumes "snapshot_of (fst st) ms" and "rm0 \<in> set ms" and "rm_gameID rm0 = None"
    and "r \<in> set (rom_files (fst st))" and "rf_id r = rm_id rm0"
  shows "\<exists>g. r\<lparr>game_id := Some g\<rparr> \<in> set (rom_files (fst (match_roms dr ms st)))
     \<and> (\<exists>row \<in> set (games (fst (match_roms dr ms st))). g_id row = g
          \<and> title_en row = Some (GameTitle dr) \<and> g_platform row = Platform dr)"
  using assms
proof (induction ms arbitrary: st)
  case Nil
  then show ?case by simp
next
  case (Cons rm ms)
  from Cons.prems(1) have notin: "rm_id rm \<notin> rm_id ` set ms"
    by (simp add: snapshot_of_def)
  show ?case
  proof (cases "rm_id rm = rm_id rm0")
    case True
    with notin Cons.prems(2) have "rm0 = rm"
      by (metis imageI set_ConsD)
    with Cons.prems(3) have none: "rm_gameID rm = None" by simp
    obtain d m where st: "st = (d, m)" by (cases st)
    let ?g = "fst (found_or_created dr d)"
    let ?st1 = "match_rom dr rm st"
    from Cons.prems(4,5) True st
    have "r\<lparr>game_id := Some ?g\<rparr> \<in> set (rom_files (fst ?st1))"
      by (force simp: match_rom_None [OF none] set_game_id_def simp del: match_rom.simps)
    moreover from True Cons.prems(5) notin
    have "rf_id (r\<lparr>game_id := Some ?g\<rparr>) \<notin> rm_id ` set ms" by simp
    ultimately have row: "r\<lparr>game_id := Some ?g\<rparr> \<in> set (rom_files (fst (match_roms dr ms ?st1)))"
      by (rule match_roms_row_untouched)
    from found_or_created_game [of dr d] st
    have "\<exists>row \<in> set (games (fst ?st1)). g_id row = ?g \<and> title_en row = Some (GameTitle dr)
        \<and> g_platform row = Platform dr"
      by (simp add: match_rom_None [OF none] del: match_rom.simps)
    from match_roms_game_stays [OF this] row show ?thesis
      by auto
  next
    case False
    with Cons.prems(2) have in_ms: "rm0 \<in> set ms" by auto
    from False Cons.prems(5) have "rf_id r \<notin> rm_id ` set [rm]" by simp
    from match_roms_row_untouched [OF Cons.prems(4) this, of dr]
    have "r \<in> set (rom_files (fst (match_rom dr rm st)))" by simp
    from Cons.IH [OF match_rom_snapshot [OF Cons.prems(1)] in_ms Cons.prems(3) this Cons.prems(5)]
    show ?thesis by simp
  qed
qed

lemma match_dat_rom_links:
  assumes "distinct (map rf_id (rom_files d))" and "select_query dr = Some (q, v)"
    and "r \<in> set (rom_files d)" and "hash_column q r = v" and "game_id r = None"
  shows "\<exists>g. r\<lparr>game_id := Some g\<rparr> \<in> set (rom_files (fst (match_dat_rom dr (d, m))))
     \<and> (\<exists>row \<in> set (games (fst (match_dat_rom dr (d, m)))). g_id row = g
          \<and> title_en row = Some (GameTitle dr) \<and> g_platform row = Platform dr)"
proof -
  let ?rm = "\<lparr>rm_id = rf_id r, rm_gameID = None\<rparr>"
  from assms(3-5) have rm: "?rm \<in> set (query_matches q v d)"
    by (force simp: query_matches_def)
  then have ne: "query_matches q v d \<noteq> []" by auto
  from match_roms_links [of "(d, m)" "query_matches q v d" ?rm r dr]
    query_matches_snapshot [OF assms(1)] rm assms(3)
  show ?thesis
    using assms(2) ne by (simp add: match_dat_rom_def)
qed


subsection \<open>Hash-based match: running it again\<close>







subsection \<open>Hash-based match: the claims\<close>

lemma MatchROMs_snd: "snd (MatchROMs datRoms d) = fst (match_dat_roms datRoms (d, 0))"
  by (simp add: MatchROMs_def split: prod.splits)

text \<open>
  C3. For a matched FileRecord that already carries a game link \<open>g\<close>, the match leaves
  the table \<open>rom_files\<close> as it is and changes nothing in \<open>games\<close> but the English title of
  a row with id \<open>g\<close>, and that only when the title is \<open>NULL\<close> or empty. Over a whole
  batch, a game whose English title is populated is unchanged, and a FileRecord that
  carries a game link is unchanged, link included.
\<close>

theorem MatchROMs_linked_file_title_only:
  assumes "wf_db d"
  shows "rom_files (fst (match_rom dr \<lparr>rm_id = rid, rm_gameID = Some g\<rparr> (d, m))) = rom_files d
     \<and> length (games (fst (match_rom dr \<lparr>rm_id = rid, rm_gameID = Some g\<rparr> (d, m))))
         = length (games d)
     \<and> (\<forall>i < length (games d).
           games (fst (match_rom dr \<lparr>rm_id = rid, rm_gameID = Some g\<rparr> (d, m))) ! i =
             (if g_id (games d ! i) = g
                 \<and> (title_en (games d ! i) = None \<or> title_en (games d ! i) = Some [])
              then (games d ! i)\<lparr>title_en := Some (GameTitle dr)\<rparr>
              else games d ! i))
     \<and> (\<forall>i < length (games d).
           title_en (games d ! i) \<noteq> None \<longrightarrow> title_en (games d ! i) \<noteq> Some [] \<longrightarrow>
           games (snd (MatchROMs datRoms d)) ! i = games d ! i)
     \<and> (\<forall>i < length (rom_files d).
           game_id (rom_files d ! i) \<noteq> None \<longrightarrow>
           rom_files (snd (MatchROMs datRoms d)) ! i = rom_files d ! i)"
proof -
  from assms have "store_kept d (snd (MatchROMs datRoms d))"
    using match_dat_roms_wf_kept [of "(d, 0)" datRoms] by (simp add: MatchROMs_snd)
  then show ?thesis
    by (simp add: update_title_en_if_empty_def store_kept_linked_row store_kept_titled_game)
qed

theorem MatchROMs_linked_file_title_only_witness:
  "snd (MatchROMs [ex_dat] ex_linked) = ex_linked"
proof -
  have wf: "wf_db ex_linked"
    by (simp add: wf_db_def ex_linked_def)
  have len: "length (games (snd (MatchROMs [ex_dat] ex_linked))) = 1"
    "length (rom_files (snd (MatchROMs [ex_dat] ex_linked))) = 1"
    by (simp_all add: MatchROMs_def match_dat_rom_def select_query_def query_matches_def
        update_title_en_if_empty_def ex_linked_def ex_dat_def ex_unlinked_def)
  from MatchROMs_linked_file_title_only [OF wf, of ex_dat 0 7 0 "[ex_dat]"]
  have "games (snd (MatchROMs [ex_dat] ex_linked)) ! 0 = games ex_linked ! 0"
    and "rom_files (snd (MatchROMs [ex_dat] ex_linked)) ! 0 = rom_files ex_linked ! 0"
    by (simp_all add: ex_linked_def ex_titled_def)
  with len have "games (snd (MatchROMs [ex_dat] ex_linked)) = games ex_linked"
    and "rom_files (snd (MatchROMs [ex_dat] ex_linked)) = rom_files ex_linked"
    by (simp_all add: list_eq_iff_nth_eq ex_linked_def)
  then show ?thesis
    by simp
qed

lemma match_rom_cong:
  "GameTitle dr' = GameTitle dr \<Longrightarrow> Platform dr' = Platform dr \<Longrightarrow>
     match_rom dr' rm st = match_rom dr rm st"
  by (cases st) (simp split: option.split prod.split)

lemma match_roms_cong:
  "GameTitle dr' = GameTitle dr \<Longrightarrow> Platform dr' = Platform dr \<Longrightarrow>
     match_roms dr' ms st = match_roms dr ms st"
proof (induction ms arbitrary: st)
  case Nil
  then show ?case by simp
next
  case (Cons rm ms)
  from Cons.prems have "match_rom dr' rm st = match_rom dr rm st"
    by (rule match_rom_cong)
  with Cons.IH [OF Cons.prems] show ?case
    by (simp del: match_rom.simps)
qed

lemma match_roms_count: "snd (match_roms dr ms st) = snd st + int (length ms)"
proof (induction ms arbitrary: st)
  case Nil
  then show ?case by simp
next
  case (Cons rm ms)
  have "snd (match_rom dr rm st) = snd st + 1"
    by (cases st) (simp add: match_rom_snd del: match_rom.simps)
  with Cons.IH [of "match_rom dr rm st"] show ?case by simp
qed

lemma match_dat_rom_count:
  "select_query dr = Some (q, v) \<Longrightarrow>
     snd (match_dat_rom dr st)
       = snd st + int (length (filter (\<lambda>r. hash_column q r = v) (rom_files (fst st))))"
  by (simp add: match_dat_rom_def Let_def match_roms_count query_matches_def)

text \<open>
  C5. One hash field decides the lookup of a ChecksumRecord: with a non-empty SHA1 the
  MD5 and CRC32 of the record have no influence on the outcome and the files counted as
  matched are those whose SHA1 equals the record's; with an empty SHA1 and a non-empty
  MD5 the CRC32 has no influence and the files are those of equal MD5; with both empty
  and a non-empty CRC32 the files are those of equal CRC32. A record whose three hashes
  are empty leaves the store and the counter as they are, and the batch goes on with the
  records after it.
\<close>

theorem MatchROMs_hash_priority:
  "(SHA1 dr \<noteq> [] \<longrightarrow>
       match_dat_rom (dr\<lparr>MD5 := x, CRC32 := y\<rparr>) st = match_dat_rom dr st
     \<and> snd (match_dat_rom dr st)
         = snd st + int (length (filter (\<lambda>r. hash_sha1 r = SHA1 dr) (rom_files (fst st)))))
   \<and> (SHA1 dr = [] \<and> MD5 dr \<noteq> [] \<longrightarrow>
       match_dat_rom (dr\<lparr>CRC32 := y\<rparr>) st = match_dat_rom dr st
     \<and> snd (match_dat_rom dr st)
         = snd st + int (length (filter (\<lambda>r. hash_md5 r = MD5 dr) (rom_files (fst st)))))
   \<and> (SHA1 dr = [] \<and> MD5 dr = [] \<and> CRC32 dr \<noteq> [] \<longrightarrow>
       snd (match_dat_rom dr st)
         = snd st + int (length (filter (\<lambda>r. hash_crc32 r = CRC32 dr) (rom_files (fst st)))))
   \<and> (SHA1 dr = [] \<and> MD5 dr = [] \<and> CRC32 dr = [] \<longrightarrow>
       match_dat_rom dr st = st
     \<and> match_dat_roms (dr # datRoms) st = match_dat_roms datRoms st
     \<and> MatchROMs (dr # datRoms) d = MatchROMs datRoms d)"
proof -
  have a: "match_dat_rom (dr\<lparr>MD5 := x, CRC32 := y\<rparr>) st = match_dat_rom dr st"
    if "SHA1 dr \<noteq> []"
    using that match_roms_cong [of "dr\<lparr>MD5 := x, CRC32 := y\<rparr>" dr]
    by (simp add: match_dat_rom_def select_query_def Let_def)
  have b: "match_dat_rom (dr\<lparr>CRC32 := y\<rparr>) st = match_dat_rom dr st"
    if "SHA1 dr = []" "MD5 dr \<noteq> []"
    using that match_roms_cong [of "dr\<lparr>CRC32 := y\<rparr>" dr]
    by (simp add: match_dat_rom_def select_query_def Let_def)
  have c: "match_dat_rom dr st = st" if "SHA1 dr = []" "MD5 dr = []" "CRC32 dr = []" for st
    using that by (simp add: match_dat_rom_def select_query_def)
  have q1: "SHA1 dr \<noteq> [] \<Longrightarrow> select_query dr = Some (by_sha1, SHA1 dr)"
    and q2: "SHA1 dr = [] \<Longrightarrow> MD5 dr \<noteq> [] \<Longrightarrow> select_query dr = Some (by_md5, MD5 dr)"
    and q3: "SHA1 dr = [] \<Longrightarrow> MD5 dr = [] \<Longrightarrow> CRC32 dr \<noteq> [] \<Longrightarrow>
      select_query dr = Some (by_crc32, CRC32 dr)"
    by (simp_all add: select_query_def)
  show ?thesis
    using a b c match_dat_rom_count [OF q1, of st] match_dat_rom_count [OF q2, of st]
      match_dat_rom_count [OF q3, of st]
    by (simp add: MatchROMs_def)
qed

theorem MatchROMs_hash_priority_witness:
  "match_dat_rom (ex_dat\<lparr>MD5 := ''FFFF'', CRC32 := ''00000000''\<rparr>) (ex_scanned, 0)
     = match_dat_rom ex_dat (ex_scanned, 0)
   \<and> snd (match_dat_rom ex_dat (ex_scanned, 0)) = 1
   \<and> MatchROMs [ex_nohash, ex_dat] ex_scanned = MatchROMs [ex_dat] ex_scanned"
proof -
  have h: "SHA1 ex_dat \<noteq> []" "SHA1 ex_nohash = []" "MD5 ex_nohash = []" "CRC32 ex_nohash = []"
    by (simp_all add: ex_dat_def ex_nohash_def)
  from MatchROMs_hash_priority [where dr = ex_dat and x = "''FFFF''" and y = "''00000000''"
      and st = "(ex_scanned, 0)"] h(1)
  have "match_dat_rom (ex_dat\<lparr>MD5 := ''FFFF'', CRC32 := ''00000000''\<rparr>) (ex_scanned, 0)
     = match_dat_rom ex_dat (ex_scanned, 0)
     \<and> snd (match_dat_rom ex_dat (ex_scanned, 0)) = 1"
    by (simp add: ex_scanned_def ex_unlinked_def ex_dat_def)
  moreover from MatchROMs_hash_priority [where dr = ex_nohash and datRoms = "[ex_dat]"
      and d = ex_scanned] h(2-4)
  have "MatchROMs [ex_nohash, ex_dat] ex_scanned = MatchROMs [ex_dat] ex_scanned"
    by simp
  ultimately show ?thesis by simp
qed

subsection \<open>Hash-based match: linking by SHA1\<close>







subsection \<open>Hash-based match and platforms\<close>

lemma match_rom_titled_row_stays:
  assumes "row \<in> set (games (fst st))" and "title_en row = Some (GameTitle dr)"
  shows "row \<in> set (games (fst (match_rom dr rm st)))"
proof (cases st)
  case (Pair d m)
  show ?thesis
  proof (cases "rm_gameID rm")
    case None
    from found_or_created_games [of dr d] assms(1) Pair
    have "row \<in> set (games (snd (found_or_created dr d)))" by auto
    with None Pair show ?thesis
      by (simp add: match_rom_None del: match_rom.simps)
  next
    case (Some g')
    let ?f = "\<lambda>row. if g_id row = g' \<and> (title_en row = None \<or> title_en row = Some [])
      then row\<lparr>title_en := Some (GameTitle dr)\<rparr> else row"
    from assms(2) have "?f row = row" by simp
    moreover from assms(1) Pair
    have "?f row \<in> set (games (update_title_en_if_empty (GameTitle dr) g' d))"
      by (simp add: update_title_en_if_empty_def)
    ultimately show ?thesis
      using Some Pair by (simp add: match_rom_Some del: match_rom.simps)
  qed
qed

lemma match_roms_titled_row_stays:
  "row \<in> set (games (fst st)) \<Longrightarrow> title_en row = Some (GameTitle dr) \<Longrightarrow>
     row \<in> set (games (fst (match_roms dr ms st)))"
proof (induction ms arbitrary: st)
  case Nil
  then show ?case by simp
next
  case (Cons rm ms)
  from Cons.IH [OF match_rom_titled_row_stays [OF Cons.prems] Cons.prems(2)] show ?case
    by simp
qed

lemma match_rom_fill:
  assumes "title_en row = None \<or> title_en row = Some []"
    and "row \<in> set (games (fst st))
       \<or> row\<lparr>title_en := Some (GameTitle dr)\<rparr> \<in> set (games (fst st))"
  shows "(rm_gameID rm \<noteq> Some (g_id row) \<and> row \<in> set (games (fst (match_rom dr rm st))))
       \<or> row\<lparr>title_en := Some (GameTitle dr)\<rparr> \<in> set (games (fst (match_rom dr rm st)))"
proof (cases "row\<lparr>title_en := Some (GameTitle dr)\<rparr> \<in> set (games (fst st))")
  case True
  then have "row\<lparr>title_en := Some (GameTitle dr)\<rparr> \<in> set (games (fst (match_rom dr rm st)))"
    by (rule match_rom_titled_row_stays) simp
  then show ?thesis by simp
next
  case False
  with assms(2) have mem: "row \<in> set (games (fst st))" by simp
  obtain d m where st: "st = (d, m)" by (cases st)
  show ?thesis
  proof (cases "rm_gameID rm")
    case None
    from found_or_created_games [of dr d] mem st
    have "row \<in> set (games (snd (found_or_created dr d)))" by auto
    with None st show ?thesis
      by (simp add: match_rom_None del: match_rom.simps)
  next
    case (Some g')
    let ?f = "\<lambda>row. if g_id row = g' \<and> (title_en row = None \<or> title_en row = Some [])
      then row\<lparr>title_en := Some (GameTitle dr)\<rparr> else row"
    from mem st have "?f row \<in> set (games (update_title_en_if_empty (GameTitle dr) g' d))"
      by (simp add: update_title_en_if_empty_def)
    with assms(1) Some st show ?thesis
      by (cases "g' = g_id row") (auto simp: match_rom_Some simp del: match_rom.simps)
  qed
qed

lemma match_roms_fill:
  assumes "title_en row = None \<or> title_en row = Some []"
  shows "rm0 \<in> set ms \<Longrightarrow> rm_gameID rm0 = Some (g_id row) \<Longrightarrow>
     row \<in> set (games (fst st))
       \<or> row\<lparr>title_en := Some (GameTitle dr)\<rparr> \<in> set (games (fst st)) \<Longrightarrow>
     row\<lparr>title_en := Some (GameTitle dr)\<rparr> \<in> set (games (fst (match_roms dr ms st)))"
proof (induction ms arbitrary: st)
  case Nil
  then show ?case by simp
next
  case (Cons rm ms)
  note step = match_rom_fill [OF assms Cons.prems(3), of rm]
  show ?case
  proof (cases "row\<lparr>title_en := Some (GameTitle dr)\<rparr> \<in> set (games (fst (match_rom dr rm st)))")
    case True
    then have "row\<lparr>title_en := Some (GameTitle dr)\<rparr>
        \<in> set (games (fst (match_roms dr ms (match_rom dr rm st))))"
      by (rule match_roms_titled_row_stays) simp
    then show ?thesis by simp
  next
    case False
    with step have ne: "rm_gameID rm \<noteq> Some (g_id row)"
      and mem: "row \<in> set (games (fst (match_rom dr rm st)))"
      by auto
    from ne Cons.prems(1,2) have "rm0 \<in> set ms" by auto
    from Cons.IH [OF this Cons.prems(2)] mem show ?thesis by simp
  qed
qed

lemma match_roms_linked_cong:
  "list_all (\<lambda>rm. rm_gameID rm \<noteq> None) ms \<Longrightarrow> GameTitle dr' = GameTitle dr \<Longrightarrow>
     match_roms dr' ms st = match_roms dr ms st"
proof (induction ms arbitrary: st)
  case Nil
  then show ?case by simp
next
  case (Cons rm ms)
  from Cons.prems obtain g where "rm_gameID rm = Some g" by auto
  with Cons.prems(2) have "match_rom dr' rm st = match_rom dr rm st"
    by (cases st) simp
  with Cons.IH [of "match_rom dr rm st"] Cons.prems show ?case
    by (simp del: match_rom.simps)
qed

text \<open>
  C10. The query of the hash-based match names no platform. With the hash column and
  value a ChecksumRecord selects, every FileRecord of that value without link is linked,
  whatever its platform, to a game whose platform is the ChecksumRecord's and whose
  English title is the record's title; and for every FileRecord of that value linked to
  a game whose English title is \<open>NULL\<close> or empty, that game gets the record's title,
  whatever the platforms of the file and of the game. When no selected FileRecord lacks
  a link, so that no game is looked up or created, the outcome does not depend on the
  ChecksumRecord's platform at all.
\<close>

theorem MatchROMs_ignores_file_platform:
  assumes "wf_db d" and "select_query dr = Some (q, v)"
  shows "(\<forall>r \<in> set (rom_files d). hash_column q r = v \<longrightarrow> game_id r = None \<longrightarrow>
            (\<exists>g. r\<lparr>game_id := Some g\<rparr> \<in> set (rom_files (fst (match_dat_rom dr (d, m))))
               \<and> (\<exists>row \<in> set (games (fst (match_dat_rom dr (d, m)))).
                     g_id row = g \<and> g_platform row = Platform dr
                     \<and> title_en row = Some (GameTitle dr))))
       \<and> (\<forall>r \<in> set (rom_files d). \<forall>row \<in> set (games d).
            hash_column q r = v \<longrightarrow> game_id r = Some (g_id row) \<longrightarrow>
            (title_en row = None \<or> title_en row = Some []) \<longrightarrow>
            row\<lparr>title_en := Some (GameTitle dr)\<rparr> \<in> set (games (fst (match_dat_rom dr (d, m)))))
       \<and> (unlinked_matches dr d = [] \<longrightarrow>
            match_dat_rom (dr\<lparr>Platform := p'\<rparr>) (d, m) = match_dat_rom dr (d, m))"
proof -
  from assms(1) have dist: "distinct (map rf_id (rom_files d))"
    by (simp add: wf_db_def)
  have one: "\<exists>g. r\<lparr>game_id := Some g\<rparr> \<in> set (rom_files (fst (match_dat_rom dr (d, m))))
               \<and> (\<exists>row \<in> set (games (fst (match_dat_rom dr (d, m)))).
                     g_id row = g \<and> g_platform row = Platform dr
                     \<and> title_en row = Some (GameTitle dr))"
    if "r \<in> set (rom_files d)" "hash_column q r = v" "game_id r = None" for r
    using match_dat_rom_links [OF dist assms(2) that, of m] by auto
  have two: "row\<lparr>title_en := Some (GameTitle dr)\<rparr> \<in> set (games (fst (match_dat_rom dr (d, m))))"
    if "r \<in> set (rom_files d)" "row \<in> set (games d)" "hash_column q r = v"
      "game_id r = Some (g_id row)" "title_en row = None \<or> title_en row = Some []" for r row
  proof -
    let ?rm = "\<lparr>rm_id = rf_id r, rm_gameID = Some (g_id row)\<rparr>"
    from that(1,3,4) have rm: "?rm \<in> set (query_matches q v d)"
      by (force simp: query_matches_def)
    then have ne: "query_matches q v d \<noteq> []" by auto
    from match_roms_fill [OF that(5) rm, of "(d, m)" dr] that(2)
    show ?thesis
      using assms(2) ne by (simp add: match_dat_rom_def)
  qed
  have three: "match_dat_rom (dr\<lparr>Platform := p'\<rparr>) (d, m) = match_dat_rom dr (d, m)"
    if "unlinked_matches dr d = []"
  proof -
    from that assms(2) have "list_all (\<lambda>rm. rm_gameID rm \<noteq> None) (query_matches q v d)"
      by (auto simp: unlinked_matches_def query_matches_def filter_empty_conv list_all_iff)
    moreover have "select_query (dr\<lparr>Platform := p'\<rparr>) = select_query dr"
      by (simp add: select_query_def)
    ultimately show ?thesis
      using match_roms_linked_cong [of "query_matches q v d" "dr\<lparr>Platform := p'\<rparr>" dr "(d, m)"]
        assms(2)
      by (simp add: match_dat_rom_def Let_def)
  qed
  from one two three show ?thesis
    by blast
qed

theorem MatchROMs_ignores_file_platform_witness:
  "rf_platform ex_unlinked = ''GB'' \<and> Platform ex_dat = ''FC''
   \<and> (\<exists>g. ex_unlinked\<lparr>game_id := Some g\<rparr> \<in> set (rom_files (fst (match_dat_rom ex_dat (ex_scanned, 0))))
        \<and> (\<exists>row \<in> set (games (fst (match_dat_rom ex_dat (ex_scanned, 0)))).
              g_id row = g \<and> g_platform row = ''FC''))"
proof -
  have wf: "wf_db ex_scanned"
    by (simp add: wf_db_def ex_scanned_def)
  have q: "select_query ex_dat = Some (by_sha1, SHA1 ex_dat)"
    by (simp add: select_query_def ex_dat_def)
  have r: "ex_unlinked \<in> set (rom_files ex_scanned)"
    "hash_column by_sha1 ex_unlinked = SHA1 ex_dat" "game_id ex_unlinked = None"
    "rf_platform ex_unlinked = ''GB''" "Platform ex_dat = ''FC''"
    by (simp_all add: ex_scanned_def ex_dat_def ex_unlinked_def)
  from MatchROMs_ignores_file_platform [OF wf q, of 0 "[]"]
  have "\<forall>r \<in> set (rom_files ex_scanned).
          hash_column by_sha1 r = SHA1 ex_dat \<longrightarrow> game_id r = None \<longrightarrow>
          (\<exists>g. r\<lparr>game_id := Some g\<rparr> \<in> set (rom_files (fst (match_dat_rom ex_dat (ex_scanned, 0))))
             \<and> (\<exists>row \<in> set (games (fst (match_dat_rom ex_dat (ex_scanned, 0)))).
                   g_id row = g \<and> g_platform row = Platform ex_dat
                   \<and> title_en row = Some (GameTitle ex_dat)))"
    by (rule conjunct1)
  from bspec [OF this r(1)] r(2-5) show ?thesis
    by auto
qed

subsection \<open>Merging descriptive fields\<close>

lemma link_roms_games: "games (fst (link_roms g ids (d, c, m))) = games d"
  by (induction ids arbitrary: d c m) simp_all

lemma COALESCE_NULLIF: "COALESCE (NULLIF x []) col = (if x = [] then col else Some x)"
  by (simp add: NULLIF_def)

text \<open>
  C1 as stated fails: a merge overwrites a populated field. The stored game has developer
  \<open>Capcom\<close>; a metadata-list entry that matches it, and likewise an enrichment update,
  with developer \<open>Konami\<close> leaves \<open>Konami\<close> in the store.
\<close>

theorem merge_overwrites_counterexample:
  "developer ex_game = Some ''Capcom''
   \<and> map developer (games (snd (snd (MatchByGameList [ex_entry] ''FC'' ex_store)))) = [Some ''Konami'']
   \<and> map developer (games (UpdateGameMetadata 7 [] [] ''Konami'' [] [] [] [] ex_store)) = [Some ''Konami'']"
  by (simp add: MatchByGameList_def ex_store_def ex_game_def ex_entry_def ex_row_def
      select_rom_ids_def select_game_by_title_ja_def update_game_from_entry_def
      set_game_id_def UpdateGameMetadata_def NULLIF_def)

text \<open>
  C1, amended. \<open>COALESCE(NULLIF(?, ''), column)\<close> takes the incoming value whenever it
  is not the empty string and keeps the stored value only when the incoming value is
  empty. For a metadata-list entry whose query selects a file and which finds its game,
  that game's description, developer, publisher, release date, genre, players and
  rating are each the incoming value when that is non-empty, else the stored one, and
  every other game is as before. \<open>UpdateGameMetadata\<close>, on any store and for any game id,
  does the same for the native title, description, developer, publisher, release date,
  genre and players of the game with that id (it does not take a rating), leaves every
  other game as it is and does not touch \<open>rom_files\<close>. Every other column is kept.
\<close>

theorem merge_takes_nonempty_incoming:
  "(length (Filename e) + 2 \<le> SQLITE_MAX_LIKE_PATTERN_LENGTH \<longrightarrow>
    select_rom_ids plat (Filename e) d \<noteq> [] \<longrightarrow>
    select_game_by_title_ja (Name e) plat d = Some gameID \<longrightarrow>
      length (games (fst (match_entry plat e (d, created, matched)))) = length (games d)
    \<and> (\<forall>i < length (games d).
          games (fst (match_entry plat e (d, created, matched))) ! i =
            (if g_id (games d ! i) = gameID
             then (games d ! i)\<lparr>
               description_ja :=
                 (if Desc e = [] then description_ja (games d ! i) else Some (Desc e)),
               developer :=
                 (if Developer e = [] then developer (games d ! i) else Some (Developer e)),
               publisher :=
                 (if Publisher e = [] then publisher (games d ! i) else Some (Publisher e)),
               release_date :=
                 (if ReleaseDate e = [] then release_date (games d ! i)
                  else Some (ReleaseDate e)),
               genre := (if Genre e = [] then genre (games d ! i) else Some (Genre e)),
               players := (if Players e = [] then players (games d ! i) else Some (Players e)),
               rating := (if Rating e = [] then rating (games d ! i) else Some (Rating e))\<rparr>
             else games d ! i)))
   \<and> rom_files (UpdateGameMetadata gid titleJA descJA dev pub releaseDate gen play d)
       = rom_files d
   \<and> length (games (UpdateGameMetadata gid titleJA descJA dev pub releaseDate gen play d))
       = length (games d)
   \<and> (\<forall>i < length (games d).
         games (UpdateGameMetadata gid titleJA descJA dev pub releaseDate gen play d) ! i =
           (if g_id (games d ! i) = gid
            then (games d ! i)\<lparr>
              title_ja := (if titleJA = [] then title_ja (games d ! i) else Some titleJA),
              description_ja :=
                (if descJA = [] then description_ja (games d ! i) else Some descJA),
              developer := (if dev = [] then developer (games d ! i) else Some dev),
              publisher := (if pub = [] then publisher (games d ! i) else Some pub),
              release_date :=
                (if releaseDate = [] then release_date (games d ! i) else Some releaseDate),
              genre := (if gen = [] then genre (games d ! i) else Some gen),
              players := (if play = [] then players (games d ! i) else Some play)\<rparr>
            else games d ! i))"
proof -
  have "games (fst (match_entry plat e (d, created, matched))) =
      games (update_game_from_entry e gameID d)"
    if "select_rom_ids plat (Filename e) d \<noteq> []"
      "select_game_by_title_ja (Name e) plat d = Some gameID"
    using that by (simp add: Let_def link_roms_games)
  then show ?thesis
    by (simp add: update_game_from_entry_def UpdateGameMetadata_def COALESCE_NULLIF
        del: match_entry.simps)
qed

theorem merge_takes_nonempty_incoming_witness:
  "games (fst (match_entry ''FC'' ex_entry (ex_store, 0, 0))) ! 0
     = ex_game\<lparr>developer := Some ''Konami''\<rparr>
   \<and> title_ja (games ex_linked ! 0) = None
   \<and> games (UpdateGameMetadata 7 ''Mario'' [] ''Nintendo'' [] [] [] [] ex_linked) ! 0
     = ex_titled\<lparr>title_ja := Some ''Mario'', developer := Some ''Nintendo''\<rparr>"
proof -
  have h0: "length (Filename ex_entry) + 2 \<le> SQLITE_MAX_LIKE_PATTERN_LENGTH"
    by (simp add: ex_entry_def SQLITE_MAX_LIKE_PATTERN_LENGTH_def)
  have h1: "select_rom_ids ''FC'' (Filename ex_entry) ex_store \<noteq> []"
    by (simp add: select_rom_ids_def ex_store_def ex_entry_def ex_row_def)
  have h2: "select_game_by_title_ja (Name ex_entry) ''FC'' ex_store = Some 7"
    by (simp add: select_game_by_title_ja_def ex_store_def ex_entry_def ex_game_def)
  note inst = merge_takes_nonempty_incoming [where e = ex_entry and plat = "''FC''"
      and d = ex_store and gameID = 7 and created = 0 and matched = 0]
  from inst h0 h1 h2
  have "\<forall>i < length (games ex_store).
          games (fst (match_entry ''FC'' ex_entry (ex_store, 0, 0))) ! i =
            (if g_id (games ex_store ! i) = 7
             then (games ex_store ! i)\<lparr>
               description_ja :=
                 (if Desc ex_entry = [] then description_ja (games ex_store ! i)
                  else Some (Desc ex_entry)),
               developer :=
                 (if Developer ex_entry = [] then developer (games ex_store ! i)
                  else Some (Developer ex_entry)),
               publisher :=
                 (if Publisher ex_entry = [] then publisher (games ex_store ! i)
                  else Some (Publisher ex_entry)),
               release_date :=
                 (if ReleaseDate ex_entry = [] then release_date (games ex_store ! i)
                  else Some (ReleaseDate ex_entry)),
               genre := (if Genre ex_entry = [] then genre (games ex_store ! i)
                  else Some (Genre ex_entry)),
               players := (if Players ex_entry = [] then players (games ex_store ! i)
                  else Some (Players ex_entry)),
               rating := (if Rating ex_entry = [] then rating (games ex_store ! i)
                  else Some (Rating ex_entry))\<rparr>
             else games ex_store ! i)"
    by blast
  then have a: "games (fst (match_entry ''FC'' ex_entry (ex_store, 0, 0))) ! 0
     = ex_game\<lparr>developer := Some ''Konami''\<rparr>"
    by (simp add: ex_store_def ex_entry_def ex_game_def del: match_entry.simps)
  from merge_takes_nonempty_incoming [where d = ex_linked and gid = 7
      and titleJA = "''Mario''" and descJA = "[]" and dev = "''Nintendo''" and pub = "[]"
      and releaseDate = "[]" and gen = "[]" and play = "[]"]
  have "\<forall>i < length (games ex_linked).
         games (UpdateGameMetadata 7 ''Mario'' [] ''Nintendo'' [] [] [] [] ex_linked) ! i =
           (if g_id (games ex_linked ! i) = 7
            then (games ex_linked ! i)\<lparr>
              title_ja := (if ''Mario'' = [] then title_ja (games ex_linked ! i) else Some ''Mario''),
              description_ja :=
                (if [] = ([]::string) then description_ja (games ex_linked ! i) else Some []),
              developer := (if ''Nintendo'' = [] then developer (games ex_linked ! i) else Some ''Nintendo''),
              publisher := (if [] = ([]::string) then publisher (games ex_linked ! i) else Some []),
              release_date :=
                (if [] = ([]::string) then release_date (games ex_linked ! i) else Some []),
              genre := (if [] = ([]::string) then genre (games ex_linked ! i) else Some []),
              players := (if [] = ([]::string) then players (games ex_linked ! i) else Some [])\<rparr>
            else games ex_linked ! i)"
    by blast
  then have b: "games (UpdateGameMetadata 7 ''Mario'' [] ''Nintendo'' [] [] [] [] ex_linked) ! 0
     = ex_titled\<lparr>title_ja := Some ''Mario'', developer := Some ''Nintendo''\<rparr>"
    by (simp add: ex_linked_def ex_titled_def)
  have "title_ja (games ex_linked ! 0) = None"
    by (simp add: ex_linked_def ex_titled_def)
  with a b show ?thesis by simp
qed

subsection \<open>Metadata-list match: links\<close>

lemma link_roms_rom_files:
  "rom_files (fst (link_roms g ids (d, c, m)))
   = map (\<lambda>r. if rf_id r \<in> set ids then r\<lparr>game_id := Some g\<rparr> else r) (rom_files d)"
proof (induction ids arbitrary: d c m)
  case Nil
  then show ?case by simp
next
  case (Cons rid ids)
  have "(if rf_id (if rf_id r = rid then r\<lparr>game_id := Some g\<rparr> else r) \<in> set ids
         then (if rf_id r = rid then r\<lparr>game_id := Some g\<rparr> else r)\<lparr>game_id := Some g\<rparr>
         else (if rf_id r = rid then r\<lparr>game_id := Some g\<rparr> else r))
      = (if rf_id r \<in> set (rid # ids) then r\<lparr>game_id := Some g\<rparr> else r)" for r
    by simp
  with Cons show ?case
    by (simp add: set_game_id_def comp_def)
qed

lemma select_game_by_title_ja_Some:
  "select_game_by_title_ja t p d = Some g \<Longrightarrow>
     \<exists>row \<in> set (games d). g_id row = g \<and> title_ja row = Some t \<and> g_platform row = p"
  by (auto simp: select_game_by_title_ja_def find_Some_iff)

lemma match_entry_rom_files:
  assumes "select_rom_ids plat (Filename e) d \<noteq> []"
  shows "\<exists>gameID.
      (select_game_by_title_ja (Name e) plat d = Some gameID
        \<or> select_game_by_title_ja (Name e) plat d = None
            \<and> gameID = next_rowid (map g_id (games d)))
    \<and> rom_files (fst (match_entry plat e (d, c, m)))
        = map (\<lambda>r. if rf_id r \<in> set (select_rom_ids plat (Filename e) d)
                    then r\<lparr>game_id := Some gameID\<rparr> else r) (rom_files d)
    \<and> (\<exists>row \<in> set (games (fst (match_entry plat e (d, c, m)))).
          g_id row = gameID \<and> title_ja row = Some (Name e) \<and> g_platform row = plat)"
proof (cases "select_game_by_title_ja (Name e) plat d")
  case None
  with assms show ?thesis
    by (simp add: Let_def insert_game_from_entry_def link_roms_rom_files link_roms_games)
next
  case (Some gameID)
  from select_game_by_title_ja_Some [OF this]
  obtain row where row: "row \<in> set (games d)" "g_id row = gameID"
    "title_ja row = Some (Name e)" "g_platform row = plat"
    by blast
  let ?f = "\<lambda>row. if g_id row = gameID
          then row\<lparr>description_ja := COALESCE (NULLIF (Desc e) []) (description_ja row),
                   developer := COALESCE (NULLIF (Developer e) []) (developer row),
                   publisher := COALESCE (NULLIF (Publisher e) []) (publisher row),
                   release_date := COALESCE (NULLIF (ReleaseDate e) []) (release_date row),
                   genre := COALESCE (NULLIF (Genre e) []) (genre row),
                   players := COALESCE (NULLIF (Players e) []) (players row),
                   rating := COALESCE (NULLIF (Rating e) []) (rating row)\<rparr>
          else row"
  from row(1) have "?f row \<in> set (games (update_game_from_entry e gameID d))"
    by (simp add: update_game_from_entry_def)
  moreover from row have "g_id (?f row) = gameID \<and> title_ja (?f row) = Some (Name e)
      \<and> g_platform (?f row) = plat"
    by simp
  ultimately have "\<exists>row \<in> set (games (update_game_from_entry e gameID d)).
      g_id row = gameID \<and> title_ja row = Some (Name e) \<and> g_platform row = plat"
    by blast
  moreover have "rom_files (update_game_from_entry e gameID d) = rom_files d"
    by (simp add: update_game_from_entry_def)
  ultimately show ?thesis
    using assms Some
    by (simp add: Let_def link_roms_rom_files link_roms_games)
qed

text \<open>
  C6. For a metadata-list entry (its patterns within SQLite's limit) with at least one
  matching FileRecord there is one game, the one found under (native title, platform)
  or else the one created, carrying the entry's name as native title and the given
  platform, such that every FileRecord the query selects (given platform; filename
  equal to the entry's, or \<open>LIKE\<close> one of the two patterns) is afterwards the same row
  with its game link set to that game, whatever link it had before.
\<close>

theorem match_entry_links_unconditionally:
  assumes "length (Filename e) + 2 \<le> SQLITE_MAX_LIKE_PATTERN_LENGTH"
    and "select_rom_ids plat (Filename e) d \<noteq> []"
  shows "\<exists>gameID.
      (select_game_by_title_ja (Name e) plat d = Some gameID
        \<or> select_game_by_title_ja (Name e) plat d = None
            \<and> gameID = next_rowid (map g_id (games d)))
    \<and> (\<exists>row \<in> set (games (fst (match_entry plat e (d, c, m)))).
          g_id row = gameID \<and> title_ja row = Some (Name e) \<and> g_platform row = plat)
    \<and> length (rom_files (fst (match_entry plat e (d, c, m)))) = length (rom_files d)
    \<and> (\<forall>i < length (rom_files d).
          rf_platform (rom_files d ! i) = plat \<longrightarrow>
          (filename (rom_files d ! i) = Filename e
            \<or> sql_like (''%/'' @ Filename e) (filename (rom_files d ! i))
            \<or> sql_like (Filename e @ ''/%'') (filename (rom_files d ! i))) \<longrightarrow>
          rom_files (fst (match_entry plat e (d, c, m))) ! i
            = (rom_files d ! i)\<lparr>game_id := Some gameID\<rparr>)"
proof -
  from match_entry_rom_files [OF assms(2), of c m] obtain gameID where
    g: "select_game_by_title_ja (Name e) plat d = Some gameID
        \<or> select_game_by_title_ja (Name e) plat d = None
            \<and> gameID = next_rowid (map g_id (games d))"
    and rows: "rom_files (fst (match_entry plat e (d, c, m)))
        = map (\<lambda>r. if rf_id r \<in> set (select_rom_ids plat (Filename e) d)
                    then r\<lparr>game_id := Some gameID\<rparr> else r) (rom_files d)"
    and game: "\<exists>row \<in> set (games (fst (match_entry plat e (d, c, m)))).
          g_id row = gameID \<and> title_ja row = Some (Name e) \<and> g_platform row = plat"
    by blast
  have "rom_files (fst (match_entry plat e (d, c, m))) ! i
            = (rom_files d ! i)\<lparr>game_id := Some gameID\<rparr>"
    if "i < length (rom_files d)" "rf_platform (rom_files d ! i) = plat"
      "filename (rom_files d ! i) = Filename e
            \<or> sql_like (''%/'' @ Filename e) (filename (rom_files d ! i))
            \<or> sql_like (Filename e @ ''/%'') (filename (rom_files d ! i))" for i
  proof -
    from that have "rf_id (rom_files d ! i) \<in> set (select_rom_ids plat (Filename e) d)"
      unfolding select_rom_ids_def by (auto intro!: imageI)
    with that(1) show ?thesis
      by (simp add: rows del: match_entry.simps)
  qed
  with g game rows show ?thesis
    by (intro exI [of _ gameID]) (simp del: match_entry.simps)
qed


theorem match_entry_links_unconditionally_witness:
  "map game_id (rom_files ex_relink_dir) = [Some 3, Some 3]
   \<and> map game_id (rom_files (fst (match_entry ''FC'' ex_entry (ex_relink_dir, 0, 0))))
       = [Some 7, Some 7]"
proof -
  have l: "length (Filename ex_entry) + 2 \<le> SQLITE_MAX_LIKE_PATTERN_LENGTH"
    by (simp add: ex_entry_def SQLITE_MAX_LIKE_PATTERN_LENGTH_def)
  have h: "select_rom_ids ''FC'' (Filename ex_entry) ex_relink_dir \<noteq> []"
    by (simp add: select_rom_ids_def ex_relink_dir_def ex_entry_def ex_row_def)
  have g: "select_game_by_title_ja (Name ex_entry) ''FC'' ex_relink_dir = Some 7"
    by (simp add: select_game_by_title_ja_def ex_relink_dir_def ex_entry_def ex_game_def
        ex_other_game_def)
  have r0: "0 < length (rom_files ex_relink_dir)"
    "rf_platform (rom_files ex_relink_dir ! 0) = ''FC''"
    "filename (rom_files ex_relink_dir ! 0) = Filename ex_entry"
    by (simp_all add: ex_relink_dir_def ex_entry_def ex_row_def)
  have r1: "1 < length (rom_files ex_relink_dir)"
    "rf_platform (rom_files ex_relink_dir ! 1) = ''FC''"
    "sql_like (''%/'' @ Filename ex_entry) (filename (rom_files ex_relink_dir ! 1))"
    by (simp_all add: ex_relink_dir_def ex_entry_def ex_row_def sql_like_def like_eq_def
        like_lower_def utf8_lead_def utf8_fix_def)
  have n: "length (rom_files ex_relink_dir) = 2"
    "map game_id (rom_files ex_relink_dir) = [Some 3, Some 3]"
    by (simp_all add: ex_relink_dir_def)
  from match_entry_links_unconditionally [OF l h, of 0 0] obtain gameID where
    gid: "select_game_by_title_ja (Name ex_entry) ''FC'' ex_relink_dir = Some gameID
        \<or> select_game_by_title_ja (Name ex_entry) ''FC'' ex_relink_dir = None
            \<and> gameID = next_rowid (map g_id (games ex_relink_dir))"
    and len: "length (rom_files (fst (match_entry ''FC'' ex_entry (ex_relink_dir, 0, 0))))
       = length (rom_files ex_relink_dir)"
    and all0: "\<forall>i < length (rom_files ex_relink_dir).
          rf_platform (rom_files ex_relink_dir ! i) = ''FC'' \<longrightarrow>
          (filename (rom_files ex_relink_dir ! i) = Filename ex_entry
            \<or> sql_like (''%/'' @ Filename ex_entry) (filename (rom_files ex_relink_dir ! i))
            \<or> sql_like (Filename ex_entry @ ''/%'') (filename (rom_files ex_relink_dir ! i))) \<longrightarrow>
          rom_files (fst (match_entry ''FC'' ex_entry (ex_relink_dir, 0, 0))) ! i
            = (rom_files ex_relink_dir ! i)\<lparr>game_id := Some gameID\<rparr>"
    by blast
  from gid g have "gameID = 7" by simp
  with all0 have all: "\<forall>i < length (rom_files ex_relink_dir).
          rf_platform (rom_files ex_relink_dir ! i) = ''FC'' \<longrightarrow>
          (filename (rom_files ex_relink_dir ! i) = Filename ex_entry
            \<or> sql_like (''%/'' @ Filename ex_entry) (filename (rom_files ex_relink_dir ! i))
            \<or> sql_like (Filename ex_entry @ ''/%'') (filename (rom_files ex_relink_dir ! i))) \<longrightarrow>
          rom_files (fst (match_entry ''FC'' ex_entry (ex_relink_dir, 0, 0))) ! i
            = (rom_files ex_relink_dir ! i)\<lparr>game_id := Some 7\<rparr>"
    by blast
  from all r0 have a: "rom_files (fst (match_entry ''FC'' ex_entry (ex_relink_dir, 0, 0))) ! 0
            = (rom_files ex_relink_dir ! 0)\<lparr>game_id := Some 7\<rparr>"
    by blast
  from all r1 have b: "rom_files (fst (match_entry ''FC'' ex_entry (ex_relink_dir, 0, 0))) ! 1
            = (rom_files ex_relink_dir ! 1)\<lparr>game_id := Some 7\<rparr>"
    by blast
  let ?rs = "rom_files (fst (match_entry ''FC'' ex_entry (ex_relink_dir, 0, 0)))"
  from len n(1) have "length ?rs = 2" by simp
  then have "?rs = [?rs ! 0, ?rs ! 1]"
    by (cases ?rs; cases "tl ?rs") auto
  then have "map game_id ?rs = [game_id (?rs ! 0), game_id (?rs ! 1)]"
    by (rule ssubst) simp
  with a b n(2) show ?thesis
    by (simp del: match_entry.simps)
qed

subsection \<open>The patterns of the metadata-list match\<close>





















subsection \<open>Platform from the header\<close>

lemma HasPrefix_iff: "HasPrefix s p \<longleftrightarrow> (\<exists>b. s = p @ b)"
  by (induction s p rule: HasPrefix.induct) auto

lemma Contains_iff: "Contains s substr \<longleftrightarrow> (\<exists>a b. s = a @ substr @ b)"
proof (induction s)
  case Nil
  then show ?case by simp
next
  case (Cons c cs)
  show ?case
  proof
    assume "Contains (c # cs) substr"
    then consider "HasPrefix (c # cs) substr" | "Contains cs substr" by auto
    then show "\<exists>a b. c # cs = a @ substr @ b"
    proof cases
      case 1
      then obtain b where "c # cs = [] @ substr @ b" by (auto simp: HasPrefix_iff)
      then show ?thesis by blast
    next
      case 2
      with Cons obtain a b where "cs = a @ substr @ b" by auto
      then have "c # cs = (c # a) @ substr @ b" by simp
      then show ?thesis by blast
    qed
  next
    assume "\<exists>a b. c # cs = a @ substr @ b"
    then obtain a b where ab: "c # cs = a @ substr @ b" by auto
    show "Contains (c # cs) substr"
    proof (cases a)
      case Nil
      with ab have "HasPrefix (c # cs) substr" by (auto simp: HasPrefix_iff)
      then show ?thesis by simp
    next
      case (Cons x a')
      with ab have "cs = a' @ substr @ b" by simp
      with Cons.IH have "Contains cs substr" by auto
      then show ?thesis by simp
    qed
  qed
qed

lemma ToLower_append: "ToLower (a @ b) = ToLower a @ ToLower b"
  by (simp add: ToLower_def)

lemma lower_gba: "ToLower ''Nintendo - Game Boy Advance'' = ''nintendo - '' @ ''game boy advance''"
  by (simp add: ToLower_def lower_char_def)

lemma lower_gbc: "ToLower ''Nintendo - Game Boy Color'' = ''nintendo - '' @ ''game boy color''"
  by (simp add: ToLower_def lower_char_def)

lemma Contains_gba: "Contains (ToLower (a @ ''Nintendo - Game Boy Advance'' @ b)) ''game boy advance''"
proof -
  have "ToLower (a @ ''Nintendo - Game Boy Advance'' @ b)
      = (ToLower a @ ''nintendo - '') @ ''game boy advance'' @ ToLower b"
    by (simp only: ToLower_append lower_gba append_assoc)
  then show ?thesis
    unfolding Contains_iff by blast
qed

lemma Contains_gbc: "Contains (ToLower (a @ ''Nintendo - Game Boy Color'' @ b)) ''game boy color''"
proof -
  have "ToLower (a @ ''Nintendo - Game Boy Color'' @ b)
      = (ToLower a @ ''nintendo - '') @ ''game boy color'' @ ToLower b"
    by (simp only: ToLower_append lower_gbc append_assoc)
  then show ?thesis
    unfolding Contains_iff by blast
qed

lemma detect_gba:
  "Contains (ToLower name) ''game boy advance'' \<Longrightarrow> detectPlatformFromHeader name = ''GBA''"
  by (simp add: detectPlatformFromHeader_def order_def patterns_def del: Contains.simps)

lemma detect_gbc:
  "\<not> Contains (ToLower name) ''game boy advance'' \<Longrightarrow> Contains (ToLower name) ''game boy color''
     \<Longrightarrow> detectPlatformFromHeader name = ''GBC''"
  by (simp add: detectPlatformFromHeader_def order_def patterns_def del: Contains.simps)

text \<open>
  C7 as stated fails for a header title that contains \<open>Nintendo - Game Boy Color\<close> and,
  anywhere, \<open>game boy advance\<close>: the pattern \<open>game boy advance\<close> is tried first, so the
  title resolves to \<open>GBA\<close>, not to \<open>GBC\<close>.
\<close>

theorem detectPlatformFromHeader_gbc_counterexample:
  "resolve_platform [] ''Nintendo - Game Boy Color (Game Boy Advance Enhanced)'' = Some ''GBA''"
  by (simp add: resolve_platform_def detectPlatformFromHeader_def order_def patterns_def
      ToLower_def lower_char_def)

text \<open>
  C7, amended. With no explicit platform, the patterns are tried in the fixed order of
  the list \<open>order\<close>, which begins \<open>game boy advance\<close>, \<open>game boy color\<close>, \<open>game boy\<close>, and
  the first one the lowered title contains decides. A header title containing
  \<open>Nintendo - Game Boy Advance\<close> resolves to \<open>GBA\<close>. A header title containing
  \<open>Nintendo - Game Boy Color\<close> never resolves to \<open>GB\<close>, and it resolves to \<open>GBC\<close>
  when it does not also contain \<open>game boy advance\<close> (in any case of the letters). The
  two titles themselves resolve to \<open>GBA\<close> and \<open>GBC\<close>.
\<close>

theorem detectPlatformFromHeader_game_boy:
  "resolve_platform [] (a @ ''Nintendo - Game Boy Advance'' @ b) = Some ''GBA''
   \<and> resolve_platform [] (a @ ''Nintendo - Game Boy Color'' @ b) \<noteq> Some ''GB''
   \<and> (\<not> Contains (ToLower (a @ ''Nintendo - Game Boy Color'' @ b)) ''game boy advance'' \<longrightarrow>
        resolve_platform [] (a @ ''Nintendo - Game Boy Color'' @ b) = Some ''GBC'')
   \<and> resolve_platform [] ''Nintendo - Game Boy Advance'' = Some ''GBA''
   \<and> resolve_platform [] ''Nintendo - Game Boy Color'' = Some ''GBC''"
proof -
  have gba: "resolve_platform [] (a @ ''Nintendo - Game Boy Advance'' @ b) = Some ''GBA''" for a b
    using detect_gba [OF Contains_gba, of a b] by (simp add: resolve_platform_def)
  have gbc: "resolve_platform [] (a @ ''Nintendo - Game Boy Color'' @ b) = Some ''GBC''"
    if "\<not> Contains (ToLower (a @ ''Nintendo - Game Boy Color'' @ b)) ''game boy advance''" for a b
    using detect_gbc [OF that Contains_gbc] by (simp add: resolve_platform_def)
  have not_gb: "resolve_platform [] (a @ ''Nintendo - Game Boy Color'' @ b) \<noteq> Some ''GB''"
  proof (cases "Contains (ToLower (a @ ''Nintendo - Game Boy Color'' @ b)) ''game boy advance''")
    case True
    from detect_gba [OF this] show ?thesis by (simp add: resolve_platform_def)
  next
    case False
    from gbc [OF this] show ?thesis by simp
  qed
  have "\<not> Contains (ToLower ([] @ ''Nintendo - Game Boy Color'' @ [])) ''game boy advance''"
    by (simp add: ToLower_def lower_char_def)
  from gbc [OF this] gba [of "[]" "[]"] gba gbc not_gb show ?thesis
    by simp
qed

theorem detectPlatformFromHeader_game_boy_witness:
  "resolve_platform [] ''Nintendo - Game Boy Color (Rev 1)'' = Some ''GBC''"
proof -
  have "\<not> Contains (ToLower ([] @ ''Nintendo - Game Boy Color'' @ '' (Rev 1)'')) ''game boy advance''"
    by (simp add: ToLower_def lower_char_def)
  with detectPlatformFromHeader_game_boy [of "[]" "'' (Rev 1)''"] show ?thesis
    by simp
qed

end
